theory Spec2Isabelle
  imports Main "HOL-Library.AList"
begin

section \<open>Go values shared by the whole package\<close>

text \<open>
  Go's \<open>error\<close> values as they are built in package \<open>image\<close>: the sentinel
  \<open>ErrNotFound\<close>, a fresh error with a message (\<open>errors.New\<close>, \<open>errors.Errorf\<close>, and
  every error handed back by a library: \<open>os\<close>, \<open>encoding/json\<close>, \<open>strconv\<close>, \<open>time\<close>, the
  docker client), and \<open>errors.Wrap err msg\<close>, which keeps the wrapped error in its chain.
\<close>

datatype error = ErrNotFound | New string | Wrap error string

text \<open>\<open>errors.Is err ErrNotFound\<close>: the sentinel is somewhere in the chain.\<close>

fun Is_ErrNotFound :: "error \<Rightarrow> bool" where
  "Is_ErrNotFound ErrNotFound = True"
| "Is_ErrNotFound (New _) = False"
| "Is_ErrNotFound (Wrap e _) = Is_ErrNotFound e"

text \<open>\<open>err.Error()\<close>: \<open>errors.Wrap\<close> puts its message before the cause.\<close>

fun Error_text :: "error \<Rightarrow> string" where
  "Error_text ErrNotFound = ''not found''"
| "Error_text (New m) = m"
| "Error_text (Wrap e m) = m @ '': '' @ Error_text e"

text \<open>
  What a call does: it returns a value, returns a non-nil \<open>error\<close>, or panics (an index
  out of range, a nil pointer dereference).
\<close>

datatype 'a outcome = Ok 'a | Err error | Panic string

text \<open>
  \<open>int\<close> and \<open>time.Duration\<close> are 64-bit signed integers (\<open>int\<close> on a 64-bit platform);
  their arithmetic wraps around. Values are kept as mathematical integers in the range
  and every operation of the source is followed by \<open>wrap64\<close>.
\<close>

definition wrap64 :: "int \<Rightarrow> int" where
  "wrap64 x = (x + 2 ^ 63) mod 2 ^ 64 - 2 ^ 63"

definition time_Minute :: int where
  "time_Minute = 60000000000"

section \<open>The duration parser (\<open>pull_policy.go\<close>)\<close>

text \<open>The test \<open>c >= '0' && c <= '9'\<close> on a byte.\<close>

definition is_digit :: "char \<Rightarrow> bool" where
  "is_digit c = (48 \<le> (of_char c :: nat) \<and> (of_char c :: nat) \<le> 57)"

definition digit_val :: "char \<Rightarrow> int" where
  "digit_val c = int (of_char c) - 48"

text \<open>The value of a run of decimal digits, most significant first.\<close>

fun digits_val :: "int \<Rightarrow> string \<Rightarrow> int" where
  "digits_val acc [] = acc"
| "digits_val acc (c # cs) = digits_val (acc * 10 + digit_val c) cs"

text \<open>
  \<open>strconv.Atoi\<close>: an optional sign, then one or more decimal digits and nothing else;
  a value outside the range of \<open>int\<close> is an error too. \<open>None\<close> is the non-nil error
  (\<open>ErrSyntax\<close> or \<open>ErrRange\<close>, which the callers do not tell apart).
\<close>

definition Atoi :: "string \<Rightarrow> int option" where
  "Atoi s =
     (let neg = (s \<noteq> [] \<and> hd s = CHR ''-'');
          ds = (if s \<noteq> [] \<and> (hd s = CHR ''+'' \<or> hd s = CHR ''-'') then tl s else s);
          v = (if neg then - digits_val 0 ds else digits_val 0 ds)
      in if ds = [] \<or> \<not> list_all is_digit ds then None
         else if v < - (2 ^ 63) \<or> 2 ^ 63 - 1 < v then None
         else Some v)"

text \<open>
  One round of the outer loop of \<open>parseDurationString\<close>, on the part of the string from
  index \<open>i\<close> on. \<open>endIndex\<close> starts at \<open>i + 1\<close> and runs over the digits that follow, so
  the number is the byte at \<open>i\<close> with those digits; \<open>durationStr[endIndex]\<close> is read with
  no test of \<open>endIndex\<close> against the length, and panics when the digits reach the end.
  The next round starts at \<open>endIndex + 1\<close>.
\<close>

function parseDurationLoop :: "string \<Rightarrow> string \<Rightarrow> int \<Rightarrow> int outcome" where
  "parseDurationLoop durationStr [] totalMinutes = Ok totalMinutes"
| "parseDurationLoop durationStr (c # cs) totalMinutes =
     (case Atoi (c # takeWhile is_digit cs) of
        None \<Rightarrow> Err (Wrap (New (''strconv.Atoi: parsing '' @ c # takeWhile is_digit cs))
                      (''invalid interval format: '' @ durationStr))
      | Some v \<Rightarrow>
          (case dropWhile is_digit cs of
             [] \<Rightarrow> Panic ''index out of range''
           | unit # rest \<Rightarrow>
               if unit = CHR ''d'' then
                 parseDurationLoop durationStr rest
                   (wrap64 (totalMinutes + wrap64 (wrap64 (v * 24) * 60)))
               else if unit = CHR ''h'' then
                 parseDurationLoop durationStr rest (wrap64 (totalMinutes + wrap64 (v * 60)))
               else if unit = CHR ''m'' then
                 parseDurationLoop durationStr rest (wrap64 (totalMinutes + v))
               else Err (New (''invalid interval uniit: '' @ [unit]))))"
  by pat_completeness auto
termination
proof -
  have shorter: "length rest < Suc (length cs)"
    if "dropWhile is_digit cs = u # rest" for cs :: string and u rest
  proof -
    have "length (dropWhile is_digit cs) \<le> length cs"
      by (rule length_dropWhile_le)
    with that show ?thesis
      by simp
  qed
  show ?thesis
    by (relation "measure (\<lambda>(d, s, t). length s)") (simp_all add: shorter)
qed

text \<open>
  \<open>parseDurationString\<close>: the loop from index 0 with \<open>totalMinutes = 0\<close>, then
  \<open>time.Duration(totalMinutes) * time.Minute\<close>, in nanoseconds.
\<close>

definition parseDurationString :: "string \<Rightarrow> int outcome" where
  "parseDurationString durationStr =
     (case parseDurationLoop durationStr durationStr 0 of
        Ok totalMinutes \<Rightarrow> Ok (wrap64 (totalMinutes * time_Minute))
      | Err e \<Rightarrow> Err e
      | Panic p \<Rightarrow> Panic p)"

section \<open>The ledger file (\<open>pull_policy.go\<close>)\<close>

text \<open>
  \<open>ImageJSON\<close>, with the fields of its two inner structs side by side. The Go map
  \<open>ImageIDtoTIME\<close> is a list of entries read through \<open>map_of\<close>; \<open>m[k] = v\<close> is
  \<open>AList.update\<close>, \<open>delete(m, k)\<close> is \<open>AList.delete\<close>, and a nil map is the empty list
  (the source only reads, ranges over and deletes from a map that may be nil).
\<close>

record ImageJSON =
  PullingInterval :: string
  PruningIinterval :: string
  LastPrune :: string
  ImageIDtoTIME :: "(string \<times> string) list"

text \<open>The document \<open>minimumJSON\<close> that \<open>readImageJSON\<close> writes when there is no file.\<close>

definition minimumJSON :: ImageJSON where
  "minimumJSON =
     \<lparr>PullingInterval = [], PruningIinterval = ''7d'', LastPrune = [], ImageIDtoTIME = []\<rparr>"

text \<open>
  The file \<open>image.json\<close> holds bytes that \<open>json.Unmarshal\<close> decodes to a document, or bytes
  that it rejects. \<open>json.MarshalIndent\<close> of a document gives bytes that decode to it again,
  and has no failing case on a struct of strings and a map of strings.
\<close>

datatype file_content = Doc ImageJSON | Corrupt

text \<open>
  What the functions of the ledger see of the machine: whether \<open>os.UserHomeDir\<close> answers,
  whether the directory \<open>.pack\<close> is there and whether \<open>os.MkdirAll\<close> can make it, the
  file if there is one, and whether \<open>os.WriteFile\<close> and \<open>os.ReadFile\<close> fail on it.
  The package variable \<open>imagePath\<close> is assigned by \<open>readImageJSON\<close> before every write,
  always to \<open>image.json\<close> in that directory, so it is not a component of its own. The
  messages sent to the logger are left out here.
\<close>

record filesystem =
  home_dir_ok :: bool
  dir_exists :: bool
  mkdir_fails :: bool
  ledger_file :: "file_content option"
  write_fails :: bool
  read_fails :: bool

definition os_WriteFile :: "ImageJSON \<Rightarrow> filesystem \<Rightarrow> error option \<times> filesystem" where
  "os_WriteFile updatedJSON fs =
     (if write_fails fs then (Some (New ''open image.json: permission denied''), fs)
      else (None, fs\<lparr>ledger_file := Some (Doc updatedJSON)\<rparr>))"

definition readImageJSON :: "filesystem \<Rightarrow> (error + ImageJSON) \<times> filesystem" where
  "readImageJSON fs =
     (if \<not> home_dir_ok fs then
        (Inl (Wrap (New ''$HOME is not defined'') ''failed to get home directory''), fs)
      else if \<not> dir_exists fs \<and> mkdir_fails fs then
        (Inl (Wrap (New ''mkdir .pack: permission denied'') ''failed to create directory''), fs)
      else
        let fs1 = (if dir_exists fs then fs else fs\<lparr>dir_exists := True\<rparr>) in
        if ledger_file fs1 = None \<and> write_fails fs1 then
          (Inl (Wrap (New ''open image.json: permission denied'')
                  ''failed to create image.json file''), fs1)
        else
          let fs2 = (if ledger_file fs1 = None
                     then fs1\<lparr>ledger_file := Some (Doc minimumJSON)\<rparr> else fs1) in
          if read_fails fs2 then
            (Inl (Wrap (New ''open image.json: permission denied'')
                    ''failed to read image.json''), fs2)
          else
            (case ledger_file fs2 of
               Some (Doc imageJSON) \<Rightarrow> (Inr imageJSON, fs2)
             | _ \<Rightarrow> (Inl (Wrap (New ''invalid character'') ''failed to unmarshal image.json''),
                     fs2)))"

definition updateImageJSONDuration :: "string \<Rightarrow> filesystem \<Rightarrow> error option \<times> filesystem" where
  "updateImageJSONDuration intervalStr fs =
     (case readImageJSON fs of
        (Inl err, fs1) \<Rightarrow> (Some err, fs1)
      | (Inr imageJSON, fs1) \<Rightarrow> os_WriteFile (imageJSON\<lparr>PullingInterval := intervalStr\<rparr>) fs1)"

text \<open>
  Instants are nanoseconds on the time line, as integers. \<open>time.Parse time.RFC3339\<close> and
  \<open>Time.Format time.RFC3339\<close> belong to the Go library and are arguments of the functions
  that call them (\<open>time_Parse\<close> gives \<open>None\<close> for a text it rejects); so is each reading
  of \<open>time.Now()\<close>. \<open>t.Add d\<close> is \<open>t + d\<close> and \<open>t.Before u\<close> is \<open>t < u\<close>. \<open>time.Since t\<close>
  is \<open>time.Now().Sub t\<close>, which stops at the least and the greatest \<open>Duration\<close>.
\<close>

definition time_Sub :: "int \<Rightarrow> int \<Rightarrow> int" where
  "time_Sub t u =
     (if t - u < - (2 ^ 63) then - (2 ^ 63)
      else if 2 ^ 63 - 1 < t - u then 2 ^ 63 - 1
      else t - u)"

text \<open>
  \<open>Fetcher.CheckImagePullInterval\<close> of \<open>pull_policy.go\<close>. The function
  \<open>CheckImagePullInterval\<close> of \<open>fetcher.go\<close> has the same body, line for line, over
  \<open>ReadImageJSON\<close>.
\<close>

definition CheckImagePullInterval ::
  "(string \<Rightarrow> int option) \<Rightarrow> int \<Rightarrow> string \<Rightarrow> filesystem \<Rightarrow> bool outcome \<times> filesystem" where
  "CheckImagePullInterval time_Parse now imageID fs =
     (case readImageJSON fs of
        (Inl err, fs1) \<Rightarrow> (Err err, fs1)
      | (Inr imageJSON, fs1) \<Rightarrow>
          (case map_of (ImageIDtoTIME imageJSON) imageID of
             None \<Rightarrow> (Ok True, fs1)
           | Some timestamp \<Rightarrow>
               (case time_Parse timestamp of
                  None \<Rightarrow>
                    (Err (Wrap (New (''parsing time '' @ timestamp))
                            ''failed to parse image timestamp from JSON''), fs1)
                | Some imageTimestamp \<Rightarrow>
                    (case parseDurationString (PullingInterval imageJSON) of
                       Err err \<Rightarrow> (Err (Wrap err ''failed to parse duration from JSON''), fs1)
                     | Panic p \<Rightarrow> (Panic p, fs1)
                     | Ok duration \<Rightarrow>
                         (let timeThreshold = now + wrap64 (- duration)
                          in (Ok (imageTimestamp < timeThreshold), fs1))))))"

text \<open>
  The first part of \<open>PruneOldImages\<close>, under \<open>LastPrune != ""\<close>: \<open>Some r\<close> when the
  function returns there with \<open>r\<close>, \<open>None\<close> when it goes on to prune.
\<close>

definition prune_not_due ::
  "(string \<Rightarrow> int option) \<Rightarrow> int \<Rightarrow> ImageJSON \<Rightarrow> unit outcome option" where
  "prune_not_due time_Parse now imageJSON =
     (if LastPrune imageJSON \<noteq> [] then
        (case time_Parse (LastPrune imageJSON) of
           None \<Rightarrow>
             Some (Err (Wrap (New (''parsing time '' @ LastPrune imageJSON))
                          ''failed to parse last prune timestamp from JSON''))
         | Some lastPruneTime \<Rightarrow>
             (case parseDurationString (PruningIinterval imageJSON) of
                Err err \<Rightarrow> Some (Err (Wrap err ''failed to parse pruning interval from JSON''))
              | Panic p \<Rightarrow> Some (Panic p)
              | Ok pruningInterval \<Rightarrow>
                  if time_Sub now lastPruneTime < pruningInterval then Some (Ok ())
                  else None))
      else None)"

text \<open>
  The loop \<open>for imageID, timestamp := range imageJSON.Image.ImageIDtoTIME\<close>. A Go range
  over a map produces every key once, with the value the map holds for it when it is
  reached, and does not produce an entry removed before it is reached; the order is not
  fixed by the language, the order of the list stands for it. The second argument is
  the list of keys still to come, the third the map as it is now.
\<close>

fun prune_range ::
  "(string \<Rightarrow> int option) \<Rightarrow> int \<Rightarrow> string list \<Rightarrow> (string \<times> string) list
     \<Rightarrow> error + (string \<times> string) list" where
  "prune_range time_Parse pruningThreshold [] m = Inr m"
| "prune_range time_Parse pruningThreshold (imageID # ids) m =
     (case map_of m imageID of
        None \<Rightarrow> prune_range time_Parse pruningThreshold ids m
      | Some timestamp \<Rightarrow>
          (case time_Parse timestamp of
             None \<Rightarrow> Inl (Wrap (New (''parsing time '' @ timestamp))
                          ''failed to parse image timestamp fron JSON'')
           | Some imageTimestamp \<Rightarrow>
               prune_range time_Parse pruningThreshold ids
                 (if imageTimestamp < pruningThreshold then AList.delete imageID m else m)))"

text \<open>
  \<open>Fetcher.PruneOldImages\<close>. It reads the clock three times: \<open>since_now\<close> in
  \<open>time.Since\<close>, \<open>threshold_now\<close> for \<open>pruningThreshold\<close>, \<open>stamp_now\<close> for the new
  \<open>LastPrune\<close>.
\<close>

definition PruneOldImages ::
  "(string \<Rightarrow> int option) \<Rightarrow> (int \<Rightarrow> string) \<Rightarrow> int \<Rightarrow> int \<Rightarrow> int \<Rightarrow> filesystem
     \<Rightarrow> unit outcome \<times> filesystem" where
  "PruneOldImages time_Parse time_Format since_now threshold_now stamp_now fs =
     (case readImageJSON fs of
        (Inl err, fs1) \<Rightarrow> (Err err, fs1)
      | (Inr imageJSON, fs1) \<Rightarrow>
          (case prune_not_due time_Parse since_now imageJSON of
             Some r \<Rightarrow> (r, fs1)
           | None \<Rightarrow>
               (case parseDurationString (PruningIinterval imageJSON) of
                  Err err \<Rightarrow> (Err (Wrap err ''failed to parse pruning interval from JSON''), fs1)
                | Panic p \<Rightarrow> (Panic p, fs1)
                | Ok pruningDuration \<Rightarrow>
                    (let pruningThreshold = threshold_now + wrap64 (- pruningDuration) in
                     case prune_range time_Parse pruningThreshold
                            (map fst (ImageIDtoTIME imageJSON)) (ImageIDtoTIME imageJSON) of
                       Inl err \<Rightarrow> (Err err, fs1)
                     | Inr m \<Rightarrow>
                         (case os_WriteFile
                                 (imageJSON\<lparr>ImageIDtoTIME := m,
                                     LastPrune := time_Format stamp_now\<rparr>) fs1 of
                            (Some err, fs2) \<Rightarrow>
                              (Err (Wrap err ''failed to write updated image.json''), fs2)
                          | (None, fs2) \<Rightarrow> (Ok (), fs2))))))"

text \<open>\<open>Fetcher.updateImagePullRecord\<close>, the last function of the unnamed source file.\<close>

definition updateImagePullRecord ::
  "string \<Rightarrow> string \<Rightarrow> filesystem \<Rightarrow> error option \<times> filesystem" where
  "updateImagePullRecord imageID timestamp fs =
     (case readImageJSON fs of
        (Inl err, fs1) \<Rightarrow> (Some err, fs1)
      | (Inr imageJSON, fs1) \<Rightarrow>
          os_WriteFile
            (imageJSON\<lparr>ImageIDtoTIME := AList.update imageID timestamp (ImageIDtoTIME imageJSON)\<rparr>)
            fs1)"

section \<open>Pull policies (\<open>pull_policy.go\<close>)\<close>

text \<open>
  \<open>PullPolicy\<close>. \<open>pull_policy.go\<close> declares the first four constants.

  Modelled from the spec: the constants \<open>PullHourly\<close>, \<open>PullDaily\<close> and \<open>PullWeekly\<close>,
  which \<open>fetcher.go\<close> names in \<open>intervalPolicy\<close> and in \<open>Fetch\<close> and whose declaration
  is not among the sources; the spec lists them as the fixed interval aliases.
\<close>

datatype PullPolicy =
  PullAlways | PullNever | PullIfNotPresent | PullWithInterval
  | PullHourly | PullDaily | PullWeekly

text \<open>
  \<open>intervalRegex\<close> is \<open>^(\d+d)?(\d+h)?(\d+m)?$\<close>. One optional group \<open>(\d+u)?\<close> takes a
  run of digits and the unit letter when they are there, and nothing otherwise; a digit
  is never a unit letter, so the match has no other choice to try. \<open>FindStringSubmatch\<close>
  returns a non-empty slice exactly when the three groups use up the whole string.
\<close>

definition opt_group :: "char \<Rightarrow> string \<Rightarrow> string" where
  "opt_group u s =
     (if takeWhile is_digit s \<noteq> [] \<and> dropWhile is_digit s \<noteq> []
         \<and> hd (dropWhile is_digit s) = u
      then tl (dropWhile is_digit s) else s)"

definition intervalRegex_matches :: "string \<Rightarrow> bool" where
  "intervalRegex_matches s =
     (opt_group CHR ''m'' (opt_group CHR ''h'' (opt_group CHR ''d'' s)) = [])"

definition strings_HasPrefix :: "string \<Rightarrow> string \<Rightarrow> bool" where
  "strings_HasPrefix s pre = (take (length pre) s = pre)"

definition strings_TrimPrefix :: "string \<Rightarrow> string \<Rightarrow> string" where
  "strings_TrimPrefix s pre = (if strings_HasPrefix s pre then drop (length pre) s else s)"

definition nameMap :: "(string \<times> PullPolicy) list" where
  "nameMap = [(''always'', PullAlways), (''never'', PullNever),
              (''if-not-present'', PullIfNotPresent), ([], PullAlways)]"

text \<open>
  The state of the package that \<open>ParsePullPolicy\<close> touches: the variable \<open>interval\<close>
  and the ledger file.
\<close>

record package_state =
  interval :: string
  files :: filesystem

text \<open>
  \<open>ParsePullPolicy\<close>. With a non-nil error the Go function returns \<open>PullAlways\<close> beside
  it; that pair is \<open>Err\<close> here. The error of \<open>updateImageJSONDuration\<close> is dropped, as in
  the source.
\<close>

definition ParsePullPolicy :: "string \<Rightarrow> package_state \<Rightarrow> PullPolicy outcome \<times> package_state" where
  "ParsePullPolicy policy st =
     (case map_of nameMap policy of
        Some val \<Rightarrow> (Ok val, st)
      | None \<Rightarrow>
          if strings_HasPrefix policy ''interval='' then
            let st1 = st\<lparr>interval := policy\<rparr>;
                intervalStr = strings_TrimPrefix policy ''interval=''
            in if \<not> intervalRegex_matches intervalStr then
                 (Err (New (''invalid interval format: '' @ intervalStr)), st1)
               else
                 (Ok PullWithInterval,
                  st1\<lparr>files := snd (updateImageJSONDuration intervalStr (files st1))\<rparr>)
          else (Err (New (''invalid pull policy '' @ policy)), st))"

text \<open>
  \<open>PullPolicy.String\<close>; its first argument is the value of the package variable
  \<open>interval\<close> when it is called.
\<close>

fun PullPolicy_String :: "string \<Rightarrow> PullPolicy \<Rightarrow> string" where
  "PullPolicy_String ival PullAlways = ''always''"
| "PullPolicy_String ival PullNever = ''never''"
| "PullPolicy_String ival PullIfNotPresent = ''if-not-present''"
| "PullPolicy_String ival PullWithInterval = ''interval='' @ ival"
| "PullPolicy_String ival _ = []"

text \<open>Parsing a text and rendering the policy it gives, in the state the parse leaves.\<close>

definition parse_then_String :: "string \<Rightarrow> package_state \<Rightarrow> string outcome" where
  "parse_then_String text st =
     (case ParsePullPolicy text st of
        (Ok p, st') \<Rightarrow> Ok (PullPolicy_String (interval st') p)
      | (Err e, st') \<Rightarrow> Err e
      | (Panic p, st') \<Rightarrow> Panic p)"

section \<open>The fetcher (\<open>fetcher.go\<close>)\<close>

text \<open>
  An image handle (\<open>imgutil.Image\<close>) as far as \<open>Fetch\<close> looks at it: the reference it
  was made for and the answer of \<open>Found()\<close>.
\<close>

record image =
  Name :: string
  Found :: bool

record LayoutOption =
  Path :: string
  Sparse :: bool

record FetchOptions =
  Daemon :: bool
  Platform :: string
  PullPolicy :: PullPolicy
  LayoutOption :: LayoutOption

definition intervalPolicy :: "FetchOptions \<Rightarrow> bool" where
  "intervalPolicy options =
     (PullPolicy options = PullWithInterval \<or> PullPolicy options = PullHourly
      \<or> PullPolicy options = PullDaily \<or> PullPolicy options = PullWeekly)"

text \<open>
  What the libraries and the daemon answer during one call of \<open>Fetch\<close>, one component
  for each call the source makes: \<open>pname.TranslateRegistry\<close>; \<open>remote.NewV1Image\<close>,
  \<open>sparse.NewImage\<close>, \<open>layout.NewImage\<close> and \<open>image.Save\<close> for the layout mode;
  \<open>remote.NewImage\<close> for the registry; \<open>local.NewImage\<close> on the daemon, before a pull and
  after it; \<open>registryAuth\<close> (which only calls the authentication libraries), and
  \<open>docker.ImagePull\<close> with whether \<open>client.IsErrNotFound\<close> holds of its error,
  \<open>jsonmessage.DisplayJSONMessagesStream\<close> and \<open>rc.Close\<close>, each by the platform asked
  for; the text of \<open>time.Now().Format(time.RFC3339)\<close>.

  Modelled from the spec: \<open>WriteFile\<close>, which \<open>Fetch\<close> calls and whose definition is not
  among the sources. The spec has it serialise the record and overwrite the ledger
  file, failing on a write failure; its answer is a component here and the document it
  is given is kept in the trace.
\<close>

record world =
  TranslateRegistry :: "string \<Rightarrow> error + string"
  remote_NewV1Image :: "error option"
  sparse_NewImage :: "error + image"
  layout_NewImage :: "error + image"
  image_Save :: "error option"
  remote_NewImage :: "error + image"
  local_NewImage_before_pull :: "error + image"
  local_NewImage_after_pull :: "error + image"
  registryAuth :: "error + string"
  docker_ImagePull :: "string \<Rightarrow> (error \<times> bool) option"
  DisplayJSONMessagesStream :: "string \<Rightarrow> error option"
  rc_Close :: "string \<Rightarrow> error option"
  WriteFile :: "ImageJSON \<Rightarrow> error option"
  now_RFC3339 :: string

text \<open>
  The interface \<open>ImagePullChecker\<close> that a \<open>Fetcher\<close> is built with: what each of its
  four methods answers. \<open>ReadImageJSON\<close> returns a pointer, which may be nil, and an
  error.
\<close>

record ImagePullChecker =
  checker_CheckImagePullInterval :: "string \<Rightarrow> bool \<times> error option"
  checker_ReadImageJSON :: "ImageJSON option \<times> error option"
  checker_PruneOldImages :: "error option"
  checker_UpdateImagePullRecord :: "string \<Rightarrow> string \<Rightarrow> error option"

text \<open>
  What \<open>Fetch\<close> does besides returning: the messages it sends to the logger and the
  calls it makes on the ledger and on \<open>pullImage\<close>, in order.
\<close>

datatype event =
    Warnf string
  | Errorf string
  | Debugf string
  | Call_CheckImagePullInterval string
  | Call_ReadImageJSON
  | Call_PruneOldImages
  | Call_UpdateImagePullRecord string string
  | Call_WriteFile ImageJSON
  | Call_pullImage string string

fun ledger_event :: "event \<Rightarrow> bool" where
  "ledger_event (Call_CheckImagePullInterval _) = True"
| "ledger_event Call_ReadImageJSON = True"
| "ledger_event Call_PruneOldImages = True"
| "ledger_event (Call_UpdateImagePullRecord _ _) = True"
| "ledger_event (Call_WriteFile _) = True"
| "ledger_event _ = False"

text \<open>\<open>strings.Contains\<close>.\<close>

fun strings_Contains :: "string \<Rightarrow> string \<Rightarrow> bool" where
  "strings_Contains [] substr = (substr = [])"
| "strings_Contains (c # cs) substr =
     (strings_HasPrefix (c # cs) substr \<or> strings_Contains cs substr)"

text \<open>
  A pair \<open>(value, err)\<close> returned as it is: the error when there is one, the value
  otherwise.
\<close>

definition returned :: "error + 'a \<Rightarrow> 'a outcome" where
  "returned r = (case r of Inl err \<Rightarrow> Err err | Inr v \<Rightarrow> Ok v)"

text \<open>
  \<open>fetchDaemonImage\<close>, \<open>fetchRemoteImage\<close>, \<open>fetchLayoutImage\<close> and \<open>pullImage\<close>. The first
  takes the answer of \<open>local.NewImage\<close> at the moment it is called.
\<close>

definition fetchDaemonImage :: "error + image \<Rightarrow> string \<Rightarrow> error + image" where
  "fetchDaemonImage local_NewImage name =
     (case local_NewImage of
        Inl err \<Rightarrow> Inl err
      | Inr img \<Rightarrow>
          if \<not> Found img
          then Inl (Wrap ErrNotFound (''image '' @ name @ '' does not exist on the daemon''))
          else Inr img)"

definition fetchRemoteImage :: "world \<Rightarrow> string \<Rightarrow> error + image" where
  "fetchRemoteImage w name =
     (case remote_NewImage w of
        Inl err \<Rightarrow> Inl err
      | Inr img \<Rightarrow>
          if \<not> Found img
          then Inl (Wrap ErrNotFound (''image '' @ name @ '' does not exist in registry''))
          else Inr img)"

definition fetchLayoutImage :: "world \<Rightarrow> string \<Rightarrow> LayoutOption \<Rightarrow> error + image" where
  "fetchLayoutImage w name options =
     (case remote_NewV1Image w of
        Some err \<Rightarrow> Inl err
      | None \<Rightarrow>
          (case (if Sparse options then sparse_NewImage w else layout_NewImage w) of
             Inl err \<Rightarrow> Inl err
           | Inr img \<Rightarrow>
               (case image_Save w of
                  Some err \<Rightarrow> Inl err
                | None \<Rightarrow> Inr img)))"

definition pullImage :: "world \<Rightarrow> string \<Rightarrow> string \<Rightarrow> error option" where
  "pullImage w imageID platform =
     (case registryAuth w of
        Inl err \<Rightarrow> Some err
      | Inr regAuth \<Rightarrow>
          (case docker_ImagePull w platform of
             Some (err, IsErrNotFound) \<Rightarrow>
               if IsErrNotFound
               then Some (Wrap ErrNotFound
                            (''image '' @ imageID @ '' does not exist on the daemon''))
               else Some err
           | None \<Rightarrow>
               (case DisplayJSONMessagesStream w platform of
                  Some err \<Rightarrow> Some err
                | None \<Rightarrow> rc_Close w platform)))"

text \<open>
  The pull of \<open>Fetch\<close>: \<open>pullImage\<close> with the platform of the options and, when its error
  text has the platform mismatch phrase, once more with no platform.
\<close>

definition pull_with_retry ::
  "world \<Rightarrow> string \<Rightarrow> FetchOptions \<Rightarrow> error option \<times> event list" where
  "pull_with_retry w name options =
     (case pullImage w name (Platform options) of
        None \<Rightarrow> (None, [Debugf (''Pulling image '' @ name), Call_pullImage name (Platform options)])
      | Some err \<Rightarrow>
          if strings_Contains (Error_text err) ''does not match the specified platform''
          then (pullImage w name [],
                [Debugf (''Pulling image '' @ name), Call_pullImage name (Platform options),
                 Call_pullImage name []])
          else (Some err,
                [Debugf (''Pulling image '' @ name), Call_pullImage name (Platform options)]))"

text \<open>
  The end of \<open>Fetch\<close> in \<open>fetcher.go\<close>: the image is looked up on the daemon again and,
  under an interval policy, the pull is recorded; an error of
  \<open>UpdateImagePullRecord\<close> is returned.
\<close>

definition Fetch_record ::
  "world \<Rightarrow> ImagePullChecker \<Rightarrow> string \<Rightarrow> FetchOptions \<Rightarrow> image outcome \<times> event list" where
  "Fetch_record w checker name options =
     (case fetchDaemonImage (local_NewImage_after_pull w) name of
        Inl err \<Rightarrow> (Err err, [])
      | Inr img \<Rightarrow>
          if intervalPolicy options then
            (case checker_UpdateImagePullRecord checker name (now_RFC3339 w) of
               Some err \<Rightarrow> (Err err, [Call_UpdateImagePullRecord name (now_RFC3339 w)])
             | None \<Rightarrow> (Ok img, [Call_UpdateImagePullRecord name (now_RFC3339 w)]))
          else (Ok img, []))"

text \<open>
  From \<open>Debugf "Pulling image"\<close> on: an error of the pull other than \<open>ErrNotFound\<close> is
  returned, otherwise \<open>Fetch\<close> goes on to its end.
\<close>

definition Fetch_pull ::
  "world \<Rightarrow> ImagePullChecker \<Rightarrow> string \<Rightarrow> FetchOptions \<Rightarrow> image outcome \<times> event list" where
  "Fetch_pull w checker name options =
     (case pull_with_retry w name options of
        (Some err, log) \<Rightarrow>
          if \<not> Is_ErrNotFound err then (Err err, log)
          else (case Fetch_record w checker name options of (r, log') \<Rightarrow> (r, log @ log'))
      | (None, log) \<Rightarrow>
          (case Fetch_record w checker name options of (r, log') \<Rightarrow> (r, log @ log')))"

text \<open>
  The case \<open>PullWithInterval, PullDaily, PullHourly, PullWeekly\<close> of the \<open>switch\<close>. The
  error of \<open>CheckImagePullInterval\<close> is logged and \<open>pull\<close> is used as returned. When no
  pull is due the image of the daemon is returned as it is; on \<open>ErrNotFound\<close> the source
  takes the record of \<open>ReadImageJSON\<close>, dropping its error, and deletes the entry of
  \<open>name\<close> through the pointer: a nil pointer panics there. The record is then handed
  to \<open>WriteFile\<close> (\<open>json.MarshalIndent\<close> has no failing case on it) and an error of the
  write is logged. When a pull is due the ledger is pruned, an error of the prune is
  logged, and the pull follows.
\<close>

definition Fetch_interval ::
  "world \<Rightarrow> ImagePullChecker \<Rightarrow> string \<Rightarrow> FetchOptions \<Rightarrow> image outcome \<times> event list" where
  "Fetch_interval w checker name options =
     (case checker_CheckImagePullInterval checker name of
        (pull, err) \<Rightarrow>
          let log1 = Call_CheckImagePullInterval name #
                (case err of
                   Some e \<Rightarrow> [Warnf (''failed to check pulling interval for image '' @ name
                                     @ '', '' @ Error_text e)]
                 | None \<Rightarrow> [])
          in
          if \<not> pull then
            (case fetchDaemonImage (local_NewImage_before_pull w) name of
               Inr img \<Rightarrow> (Ok img, log1)
             | Inl err \<Rightarrow>
                 if Is_ErrNotFound err then
                   (case fst (checker_ReadImageJSON checker) of
                      None \<Rightarrow>
                        (Panic ''invalid memory address or nil pointer dereference'',
                         log1 @ [Call_ReadImageJSON])
                    | Some imageJSON \<Rightarrow>
                        let updated = imageJSON\<lparr>ImageIDtoTIME :=
                                        AList.delete name (ImageIDtoTIME imageJSON)\<rparr>
                        in (Err err,
                            log1 @ [Call_ReadImageJSON, Call_WriteFile updated] @
                              (case WriteFile w updated of
                                 Some e \<Rightarrow> [Errorf (''failed to write updated image.json ''
                                                    @ Error_text e)]
                               | None \<Rightarrow> [])))
                 else (Err err, log1))
          else
            let log2 = log1 @ Call_PruneOldImages #
                  (case checker_PruneOldImages checker of
                     Some e \<Rightarrow> [Warnf (''Failed to prune images, '' @ Error_text e)]
                   | None \<Rightarrow> [])
            in (case Fetch_pull w checker name options of
                  (r, log3) \<Rightarrow> (r, log2 @ log3)))"

text \<open>\<open>Fetcher.Fetch\<close> of \<open>fetcher.go\<close>: the result and the trace.\<close>

definition Fetch ::
  "world \<Rightarrow> ImagePullChecker \<Rightarrow> string \<Rightarrow> FetchOptions \<Rightarrow> image outcome \<times> event list" where
  "Fetch w checker name0 options =
     (case TranslateRegistry w name0 of
        Inl err \<Rightarrow> (Err err, [])
      | Inr name \<Rightarrow>
          if LayoutOption options \<noteq> \<lparr>Path = [], Sparse = False\<rparr> then
            (returned (fetchLayoutImage w name (LayoutOption options)), [])
          else if \<not> Daemon options then
            (returned (fetchRemoteImage w name), [])
          else
            (case PullPolicy options of
               PullNever \<Rightarrow>
                 (returned (fetchDaemonImage (local_NewImage_before_pull w) name), [])
             | PullIfNotPresent \<Rightarrow>
                 (case fetchDaemonImage (local_NewImage_before_pull w) name of
                    Inr img \<Rightarrow> (Ok img, [])
                  | Inl err \<Rightarrow>
                      if \<not> Is_ErrNotFound err then (Err err, [])
                      else Fetch_pull w checker name options)
             | PullWithInterval \<Rightarrow> Fetch_interval w checker name options
             | PullDaily \<Rightarrow> Fetch_interval w checker name options
             | PullHourly \<Rightarrow> Fetch_interval w checker name options
             | PullWeekly \<Rightarrow> Fetch_interval w checker name options
             | PullAlways \<Rightarrow> Fetch_pull w checker name options))"

section \<open>The fetcher of the unnamed source file\<close>

text \<open>
  The unnamed source file holds another \<open>Fetch\<close>, over the methods
  \<open>CheckImagePullInterval\<close>, \<open>PruneOldImages\<close> and \<open>updateImagePullRecord\<close> of the
  \<open>Fetcher\<close> itself, which \<open>pull_policy.go\<close> defines on the ledger file. Its ledger key is
  \<open>imageID\<close>: the second part of \<open>strings.Split(name, "@")\<close> when there is one, the name
  otherwise.
\<close>

definition split_imageID :: "string \<Rightarrow> string" where
  "split_imageID name =
     (if CHR ''@'' \<in> set name
      then takeWhile (\<lambda>c. c \<noteq> CHR ''@'') (tl (dropWhile (\<lambda>c. c \<noteq> CHR ''@'') name))
      else name)"

text \<open>
  The readings of \<open>time.Now()\<close> during one call: in \<open>CheckImagePullInterval\<close>, the three
  of \<open>PruneOldImages\<close>, and for the record of the pull.
\<close>

record clock =
  clock_check :: int
  clock_since :: int
  clock_threshold :: int
  clock_stamp :: int
  clock_record :: int

text \<open>
  The end of this \<open>Fetch\<close>: \<open>updateImagePullRecord\<close> is called after every pull that
  leaves the image on the daemon, whatever the policy.
\<close>

definition Fetch_record_unnamed ::
  "world \<Rightarrow> (int \<Rightarrow> string) \<Rightarrow> clock \<Rightarrow> string \<Rightarrow> string \<Rightarrow> filesystem
     \<Rightarrow> image outcome \<times> filesystem" where
  "Fetch_record_unnamed w time_Format clk name imageID fs =
     (case fetchDaemonImage (local_NewImage_after_pull w) name of
        Inl err \<Rightarrow> (Err err, fs)
      | Inr img \<Rightarrow>
          (case updateImagePullRecord imageID (time_Format (clock_record clk)) fs of
             (Some err, fs1) \<Rightarrow> (Err err, fs1)
           | (None, fs1) \<Rightarrow> (Ok img, fs1)))"

definition Fetch_pull_unnamed ::
  "world \<Rightarrow> (int \<Rightarrow> string) \<Rightarrow> clock \<Rightarrow> string \<Rightarrow> string \<Rightarrow> FetchOptions \<Rightarrow> filesystem
     \<Rightarrow> image outcome \<times> filesystem" where
  "Fetch_pull_unnamed w time_Format clk name imageID options fs =
     (case fst (pull_with_retry w name options) of
        Some err \<Rightarrow>
          if \<not> Is_ErrNotFound err then (Err err, fs)
          else Fetch_record_unnamed w time_Format clk name imageID fs
      | None \<Rightarrow> Fetch_record_unnamed w time_Format clk name imageID fs)"

text \<open>
  \<open>Fetch\<close> of the unnamed file. Its \<open>switch\<close> has the cases \<open>PullNever\<close>,
  \<open>PullIfNotPresent\<close> and \<open>PullWithInterval\<close>; every other policy goes to the pull. An
  error of \<open>CheckImagePullInterval\<close> is returned; an error of \<open>PruneOldImages\<close> is
  logged. The messages to the logger are left out.
\<close>

definition Fetch_unnamed ::
  "world \<Rightarrow> (string \<Rightarrow> int option) \<Rightarrow> (int \<Rightarrow> string) \<Rightarrow> clock \<Rightarrow> string \<Rightarrow> FetchOptions
     \<Rightarrow> filesystem \<Rightarrow> image outcome \<times> filesystem" where
  "Fetch_unnamed w time_Parse time_Format clk name0 options fs =
     (case TranslateRegistry w name0 of
        Inl err \<Rightarrow> (Err err, fs)
      | Inr name \<Rightarrow>
          let imageID = split_imageID name in
          if LayoutOption options \<noteq> \<lparr>Path = [], Sparse = False\<rparr> then
            (returned (fetchLayoutImage w name (LayoutOption options)), fs)
          else if \<not> Daemon options then
            (returned (fetchRemoteImage w name), fs)
          else
            (case PullPolicy options of
               PullNever \<Rightarrow>
                 (returned (fetchDaemonImage (local_NewImage_before_pull w) name), fs)
             | PullIfNotPresent \<Rightarrow>
                 (case fetchDaemonImage (local_NewImage_before_pull w) name of
                    Inr img \<Rightarrow> (Ok img, fs)
                  | Inl err \<Rightarrow>
                      if \<not> Is_ErrNotFound err then (Err err, fs)
                      else Fetch_pull_unnamed w time_Format clk name imageID options fs)
             | PullWithInterval \<Rightarrow>
                 (case CheckImagePullInterval time_Parse (clock_check clk) imageID fs of
                    (Err err, fs1) \<Rightarrow> (Err err, fs1)
                  | (Panic p, fs1) \<Rightarrow> (Panic p, fs1)
                  | (Ok pull, fs1) \<Rightarrow>
                      (case fetchDaemonImage (local_NewImage_before_pull w) name of
                         Inl err \<Rightarrow>
                           if \<not> pull \<and> \<not> Is_ErrNotFound err then (Err err, fs1)
                           else
                             (case PruneOldImages time_Parse time_Format (clock_since clk)
                                     (clock_threshold clk) (clock_stamp clk) fs1 of
                                (Panic p, fs2) \<Rightarrow> (Panic p, fs2)
                              | (_, fs2) \<Rightarrow>
                                  Fetch_pull_unnamed w time_Format clk name imageID options fs2)
                       | Inr img \<Rightarrow>
                           (case PruneOldImages time_Parse time_Format (clock_since clk)
                                   (clock_threshold clk) (clock_stamp clk) fs1 of
                              (Panic p, fs2) \<Rightarrow> (Panic p, fs2)
                            | (_, fs2) \<Rightarrow>
                                Fetch_pull_unnamed w time_Format clk name imageID options fs2)))
             | _ \<Rightarrow> Fetch_pull_unnamed w time_Format clk name imageID options fs))"

section \<open>Notions used in the statements\<close>

text \<open>
  A duration text as a list of segments, each a number and a unit letter, written one
  after the other in the order of the list.
\<close>

definition render_segments :: "(string \<times> char) list \<Rightarrow> string" where
  "render_segments segs = concat (map (\<lambda>seg. fst seg @ [snd seg]) segs)"

text \<open>The minutes in one unit, as the \<open>switch\<close> of \<open>parseDurationString\<close> counts them.\<close>

definition unit_minutes :: "char \<Rightarrow> int" where
  "unit_minutes u = (if u = CHR ''d'' then 24 * 60 else if u = CHR ''h'' then 60 else 1)"

text \<open>
  A segment that \<open>parseDurationString\<close> takes: a non-empty run of digits whose value
  fits \<open>int\<close>, and one of the letters \<open>d\<close>, \<open>h\<close>, \<open>m\<close>.
\<close>

definition segment_ok :: "string \<times> char \<Rightarrow> bool" where
  "segment_ok seg =
     (fst seg \<noteq> [] \<and> list_all is_digit (fst seg) \<and> digits_val 0 (fst seg) < 2 ^ 63
      \<and> (snd seg = CHR ''d'' \<or> snd seg = CHR ''h'' \<or> snd seg = CHR ''m''))"

definition segment_minutes :: "string \<times> char \<Rightarrow> int" where
  "segment_minutes seg = digits_val 0 (fst seg) * unit_minutes (snd seg)"

text \<open>
  The interval grammar \<open>(\d+d)?(\d+h)?(\d+m)?\<close> read as a grammar: three parts, each
  empty or a non-empty run of digits with its unit letter, days first, then hours, then
  minutes.
\<close>

definition grammar_segment :: "char \<Rightarrow> string \<Rightarrow> bool" where
  "grammar_segment u x = (\<exists>ds. ds \<noteq> [] \<and> list_all is_digit ds \<and> x = ds @ [u])"

definition interval_grammar :: "string \<Rightarrow> bool" where
  "interval_grammar s =
     (\<exists>a b c. s = a @ b @ c
        \<and> (a = [] \<or> grammar_segment CHR ''d'' a)
        \<and> (b = [] \<or> grammar_segment CHR ''h'' b)
        \<and> (c = [] \<or> grammar_segment CHR ''m'' c))"

text \<open>
  What pruning leaves of one entry of the map: nothing of an entry stamped before the
  threshold, the entry itself otherwise.
\<close>

definition prune_keeps ::
  "(string \<Rightarrow> int option) \<Rightarrow> int \<Rightarrow> string option \<Rightarrow> string option" where
  "prune_keeps time_Parse pruningThreshold entry =
     (case entry of
        None \<Rightarrow> None
      | Some timestamp \<Rightarrow>
          (case time_Parse timestamp of
             None \<Rightarrow> Some timestamp
           | Some imageTimestamp \<Rightarrow>
               if imageTimestamp < pruningThreshold then None else Some timestamp))"

section \<open>Machines and ledgers to run the functions on\<close>

text \<open>A machine whose ledger file holds the given document, and one with no \<open>.pack\<close> yet.\<close>

definition machine_with :: "ImageJSON \<Rightarrow> filesystem" where
  "machine_with imageJSON =
     \<lparr>home_dir_ok = True, dir_exists = True, mkdir_fails = False,
      ledger_file = Some (Doc imageJSON), write_fails = False, read_fails = False\<rparr>"

definition fresh_machine :: filesystem where
  "fresh_machine =
     \<lparr>home_dir_ok = True, dir_exists = False, mkdir_fails = False,
      ledger_file = None, write_fails = False, read_fails = False\<rparr>"

text \<open>
  \<open>time.Parse\<close> and \<open>Format\<close> on the two RFC 3339 texts of the examples: midnight UTC on
  1 January 2024 is 1704067200 seconds after the epoch, midnight on 10 January 2024 is
  1704844800 seconds after it.
\<close>

definition example_time_Parse :: "string \<Rightarrow> int option" where
  "example_time_Parse s =
     (if s = ''2024-01-01T00:00:00Z'' then Some 1704067200000000000
      else if s = ''2024-01-10T00:00:00Z'' then Some 1704844800000000000
      else None)"

definition example_time_Format :: "int \<Rightarrow> string" where
  "example_time_Format t =
     (if t = 1704067200000000000 then ''2024-01-01T00:00:00Z''
      else if t = 1704844800000000000 then ''2024-01-10T00:00:00Z''
      else ''0001-01-01T00:00:00Z'')"

text \<open>
  A ledger with a pulling interval of one minute, the default pruning interval, no
  prune yet and two images; and the same ledger after a prune on 10 January 2024.
\<close>

definition example_ledger :: ImageJSON where
  "example_ledger =
     \<lparr>PullingInterval = ''1m'', PruningIinterval = ''7d'', LastPrune = [],
      ImageIDtoTIME = [(''busybox'', ''2024-01-01T00:00:00Z''),
                       (''alpine'', ''2024-01-10T00:00:00Z'')]\<rparr>"

definition example_pruned :: ImageJSON where
  "example_pruned =
     \<lparr>PullingInterval = ''1m'', PruningIinterval = ''7d'',
      LastPrune = ''2024-01-10T00:00:00Z'',
      ImageIDtoTIME = [(''alpine'', ''2024-01-10T00:00:00Z'')]\<rparr>"

text \<open>
  A world where the image is not on the daemon before the pull and is there after it,
  and every library call succeeds; a checker whose calls succeed and say that a pull is
  due; one whose calls all fail; options for the daemon with a given policy.
\<close>

definition example_image :: image where
  "example_image = \<lparr>Name = ''busybox'', Found = True\<rparr>"

definition example_world :: world where
  "example_world =
     \<lparr>TranslateRegistry = Inr,
      remote_NewV1Image = None,
      sparse_NewImage = Inr example_image,
      layout_NewImage = Inr example_image,
      image_Save = None,
      remote_NewImage = Inr example_image,
      local_NewImage_before_pull = Inr \<lparr>Name = ''busybox'', Found = False\<rparr>,
      local_NewImage_after_pull = Inr example_image,
      registryAuth = Inr ''e30='',
      docker_ImagePull = (\<lambda>platform. None),
      DisplayJSONMessagesStream = (\<lambda>platform. None),
      rc_Close = (\<lambda>platform. None),
      WriteFile = (\<lambda>updatedJSON. None),
      now_RFC3339 = ''2024-01-10T00:00:00Z''\<rparr>"

definition example_checker :: ImagePullChecker where
  "example_checker =
     \<lparr>checker_CheckImagePullInterval = (\<lambda>imageID. (True, None)),
      checker_ReadImageJSON = (Some example_ledger, None),
      checker_PruneOldImages = None,
      checker_UpdateImagePullRecord = (\<lambda>imageID timestamp. None)\<rparr>"

definition failing_checker :: ImagePullChecker where
  "failing_checker =
     \<lparr>checker_CheckImagePullInterval = (\<lambda>imageID. (True, Some (New ''permission denied''))),
      checker_ReadImageJSON = (None, Some (New ''permission denied'')),
      checker_PruneOldImages = Some (New ''permission denied''),
      checker_UpdateImagePullRecord = (\<lambda>imageID timestamp. Some (New ''permission denied''))\<rparr>"

definition example_options :: "PullPolicy \<Rightarrow> FetchOptions" where
  "example_options policy =
     \<lparr>Daemon = True, Platform = ''linux/amd64'', PullPolicy = policy,
      LayoutOption = \<lparr>Path = [], Sparse = False\<rparr>\<rparr>"

definition example_clock :: clock where
  "example_clock =
     \<lparr>clock_check = 1704844800000000000, clock_since = 1704844800000000000,
      clock_threshold = 1704844800000000000, clock_stamp = 1704844800000000000,
      clock_record = 1704844800000000000\<rparr>"

section \<open>Properties of the duration parser\<close>

lemma wrap64_range: "- (2 ^ 63) \<le> wrap64 x \<and> wrap64 x < 2 ^ 63"
  unfolding wrap64_def
  using pos_mod_bound [of "2 ^ 64" "x + 2 ^ 63"] pos_mod_sign [of "2 ^ 64" "x + 2 ^ 63"]
  by simp

lemma wrap64_id: "- (2 ^ 63) \<le> x \<Longrightarrow> x < 2 ^ 63 \<Longrightarrow> wrap64 x = x"
  unfolding wrap64_def by simp

lemma wrap64_mod: "wrap64 x mod 2 ^ 64 = x mod 2 ^ 64"
  unfolding wrap64_def by (simp add: mod_simps)

lemma wrap64_of_mod: "wrap64 (x mod 2 ^ 64) = wrap64 x"
  unfolding wrap64_def by (simp add: mod_simps)

lemma wrap64_add_right: "wrap64 (a + wrap64 b) = wrap64 (a + b)"
proof -
  have "(a + wrap64 b) mod 2 ^ 64 = (a + b) mod 2 ^ 64"
    using wrap64_mod [of b] mod_add_right_eq [of a "wrap64 b" "2 ^ 64"]
      mod_add_right_eq [of a b "2 ^ 64"] by simp
  then show ?thesis
    using wrap64_of_mod [of "a + wrap64 b"] wrap64_of_mod [of "a + b"] by simp
qed

lemma wrap64_mult_left: "wrap64 (wrap64 a * k) = wrap64 (a * k)"
proof -
  have "(wrap64 a * k) mod 2 ^ 64 = (a * k) mod 2 ^ 64"
    using wrap64_mod [of a] mod_mult_left_eq [of "wrap64 a" "2 ^ 64" k]
      mod_mult_left_eq [of a "2 ^ 64" k] by simp
  then show ?thesis
    using wrap64_of_mod [of "wrap64 a * k"] wrap64_of_mod [of "a * k"] by simp
qed

lemma parseDurationString_range:
  "parseDurationString s = Ok d \<Longrightarrow> - (2 ^ 63) \<le> d \<and> d < 2 ^ 63"
  unfolding parseDurationString_def
  using wrap64_range
  by (auto split: outcome.splits)

text \<open>
  C7. \<open>parseDurationString "2d3h30m"\<close> is \<open>2 * 1440 + 3 * 60 + 30\<close> minutes, the empty
  string gives the zero duration, and \<open>"5x"\<close> gives the error for the unit \<open>x\<close>.
\<close>

theorem parseDurationString_examples:
  "parseDurationString ''2d3h30m'' = Ok ((2 * 1440 + 3 * 60 + 30) * time_Minute)
   \<and> parseDurationString [] = Ok 0
   \<and> parseDurationString ''5x'' = Err (New ''invalid interval uniit: x'')"
  by (simp add: parseDurationString_def Atoi_def is_digit_def digit_val_def wrap64_def
      time_Minute_def)

lemma digits_val_not_negative:
  "list_all is_digit ds \<Longrightarrow> 0 \<le> acc \<Longrightarrow> 0 \<le> digits_val acc ds"
proof (induction ds arbitrary: acc)
  case Nil
  then show ?case by simp
next
  case (Cons d ds)
  then have "0 \<le> acc * 10 + digit_val d"
    by (simp add: is_digit_def digit_val_def)
  with Cons show ?case by simp
qed

lemma parseDurationLoop_digits_only:
  assumes "s \<noteq> []" "list_all is_digit s" "digits_val 0 s < 2 ^ 63"
  shows "parseDurationLoop durationStr s totalMinutes = Panic ''index out of range''"
proof -
  from assms(1) obtain c cs where s: "s = c # cs"
    by (cases s) auto
  with assms(2) have c: "is_digit c" and cs: "list_all is_digit cs"
    by simp_all
  from cs have tw: "takeWhile is_digit cs = cs" and dw: "dropWhile is_digit cs = []"
    by (simp_all add: list_all_iff)
  from c have sign: "c \<noteq> CHR ''+''" "c \<noteq> CHR ''-''"
    by (auto simp: is_digit_def)
  have "0 \<le> digits_val 0 s"
    using assms(2) by (rule digits_val_not_negative) simp
  with assms(3) s c cs sign have at: "Atoi (c # cs) = Some (digits_val 0 s)"
    by (simp add: Atoi_def)
  show ?thesis
    unfolding s by (simp add: tw dw at)
qed

text \<open>
  C9. The claim is that \<open>parseDurationString\<close> gives a duration or an error for every
  string. On \<open>"15"\<close> the inner loop stops at \<open>endIndex = 2\<close>, the length of the string,
  \<open>strconv.Atoi "15"\<close> succeeds, and \<open>durationStr[endIndex]\<close> is read past the end: the
  call panics. So does it on every number with no unit letter (the lemma above).
\<close>

theorem parseDurationString_digits_only_panics:
  "parseDurationString ''15'' = Panic ''index out of range''"
  by (simp add: parseDurationString_def Atoi_def is_digit_def digit_val_def)

section \<open>Segments in any order\<close>

lemma wrap64_add_left: "wrap64 (wrap64 a + b) = wrap64 (a + b)"
  using wrap64_add_right [of b a] by (simp add: add.commute)

lemma is_digit_not_sign: "is_digit c \<Longrightarrow> c \<noteq> CHR ''+'' \<and> c \<noteq> CHR ''-''"
  by (auto simp: is_digit_def)

lemma unit_not_digit:
  "u = CHR ''d'' \<or> u = CHR ''h'' \<or> u = CHR ''m'' \<Longrightarrow> \<not> is_digit u"
  by (auto simp: is_digit_def)

lemma Atoi_digits:
  assumes "n \<noteq> []" "list_all is_digit n" "digits_val 0 n < 2 ^ 63"
  shows "Atoi n = Some (digits_val 0 n)"
proof -
  from assms(1) obtain c ds where n: "n = c # ds"
    by (cases n) auto
  with assms(2) have "is_digit c" by simp
  then have sign: "c \<noteq> CHR ''+''" "c \<noteq> CHR ''-''"
    using is_digit_not_sign by auto
  have "0 \<le> digits_val 0 n"
    using digits_val_not_negative [OF assms(2), of 0] by simp
  with assms sign n show ?thesis
    by (simp add: Atoi_def)
qed

lemma takeWhile_digits_unit:
  "list_all is_digit ds \<Longrightarrow> \<not> is_digit u \<Longrightarrow> takeWhile is_digit (ds @ u # rest) = ds"
  by (induction ds) auto

lemma dropWhile_digits_unit:
  "list_all is_digit ds \<Longrightarrow> \<not> is_digit u \<Longrightarrow> dropWhile is_digit (ds @ u # rest) = u # rest"
  by (induction ds) auto

lemma parseDurationLoop_segment:
  assumes ok: "segment_ok (n, u)"
  shows "parseDurationLoop D (n @ u # rest) (wrap64 t)
         = parseDurationLoop D rest (wrap64 (t + segment_minutes (n, u)))"
proof -
  from ok obtain c ds where n: "n = c # ds"
    by (cases n) (auto simp: segment_ok_def)
  from ok n have ds: "list_all is_digit ds"
    by (simp add: segment_ok_def)
  from ok have u: "u = CHR ''d'' \<or> u = CHR ''h'' \<or> u = CHR ''m''"
    by (simp add: segment_ok_def)
  then have nd: "\<not> is_digit u"
    by (rule unit_not_digit)
  have tw: "takeWhile is_digit (ds @ u # rest) = ds"
    using ds nd by (rule takeWhile_digits_unit)
  have dw: "dropWhile is_digit (ds @ u # rest) = u # rest"
    using ds nd by (rule dropWhile_digits_unit)
  have at: "Atoi (c # ds) = Some (digits_val 0 n)"
    using Atoi_digits [of n] ok n by (simp add: segment_ok_def)
  from u show ?thesis
    by (auto simp: n tw dw at segment_minutes_def unit_minutes_def
        wrap64_add_left wrap64_add_right wrap64_mult_left mult.assoc)
qed

lemma parseDurationLoop_segments:
  "list_all segment_ok segs \<Longrightarrow>
   parseDurationLoop D (render_segments segs) (wrap64 t)
   = Ok (wrap64 (t + sum_list (map segment_minutes segs)))"
proof (induction segs arbitrary: t)
  case Nil
  then show ?case by (simp add: render_segments_def)
next
  case (Cons seg segs)
  obtain n u where seg: "seg = (n, u)" by (cases seg)
  from Cons.prems seg have ok: "segment_ok (n, u)" and rest: "list_all segment_ok segs"
    by simp_all
  have "render_segments (seg # segs) = n @ u # render_segments segs"
    by (simp add: render_segments_def seg)
  then have "parseDurationLoop D (render_segments (seg # segs)) (wrap64 t)
             = parseDurationLoop D (render_segments segs) (wrap64 (t + segment_minutes (n, u)))"
    using parseDurationLoop_segment [OF ok] by simp
  also have "\<dots> = Ok (wrap64 (t + segment_minutes (n, u) + sum_list (map segment_minutes segs)))"
    using Cons.IH [OF rest] by simp
  finally show ?case
    by (simp add: seg add.assoc)
qed

text \<open>
  C5, as the code has it. \<open>parseDurationString\<close> does not look at the order of the
  segments: for every list of segments it takes, in whatever order, the result is the
  sum of their minutes (wrapped to 64 bits as the Go arithmetic is). The order days,
  hours, minutes is asked for by \<open>intervalRegex\<close> in \<open>ParsePullPolicy\<close> alone.
\<close>

theorem parseDurationString_any_order:
  assumes "list_all segment_ok segs"
  shows "parseDurationString (render_segments segs)
         = Ok (wrap64 (sum_list (map segment_minutes segs) * time_Minute))"
proof -
  have "parseDurationLoop (render_segments segs) (render_segments segs) (wrap64 0)
        = Ok (wrap64 (0 + sum_list (map segment_minutes segs)))"
    using assms by (rule parseDurationLoop_segments)
  moreover have "wrap64 0 = 0"
    by (simp add: wrap64_def)
  ultimately show ?thesis
    by (simp add: parseDurationString_def wrap64_mult_left)
qed

text \<open>The segments \<open>1h\<close> and \<open>2d\<close>, in both orders.\<close>

theorem parseDurationString_any_order_witness:
  "list_all segment_ok [(''1'', CHR ''h''), (''2'', CHR ''d'')]
   \<and> render_segments [(''1'', CHR ''h''), (''2'', CHR ''d'')] = ''1h2d''
   \<and> parseDurationString ''1h2d'' = Ok (2940 * time_Minute)
   \<and> parseDurationString ''2d1h'' = Ok (2940 * time_Minute)"
proof -
  have ok1: "list_all segment_ok [(''1'', CHR ''h''), (''2'', CHR ''d'')]"
    by (simp add: segment_ok_def is_digit_def digit_val_def)
  have ok2: "list_all segment_ok [(''2'', CHR ''d''), (''1'', CHR ''h'')]"
    by (simp add: segment_ok_def is_digit_def digit_val_def)
  show ?thesis
    using ok1 parseDurationString_any_order [OF ok1] parseDurationString_any_order [OF ok2]
    by (simp add: render_segments_def segment_minutes_def unit_minutes_def digit_val_def
        wrap64_def time_Minute_def)
qed

text \<open>
  C5, as stated, says that \<open>parseDurationString "1h2d"\<close> fails. It returns 60 + 2880
  minutes.
\<close>

theorem parseDurationString_accepts_hours_before_days:
  "parseDurationString ''1h2d'' = Ok (2940 * time_Minute)"
  by (simp add: parseDurationString_def Atoi_def is_digit_def digit_val_def wrap64_def
      time_Minute_def)

section \<open>The matcher of \<open>intervalRegex\<close> and the interval grammar\<close>

lemma opt_group_Nil: "opt_group u [] = []"
  by (simp add: opt_group_def)

lemma opt_group_segment:
  assumes "\<not> is_digit u" "ds \<noteq> []" "list_all is_digit ds"
  shows "opt_group u (ds @ u # r) = r"
  using assms takeWhile_digits_unit [of ds u r] dropWhile_digits_unit [of ds u r]
  by (simp add: opt_group_def)

lemma opt_group_other:
  assumes "list_all is_digit ds" "\<not> is_digit v" "v \<noteq> u"
  shows "opt_group u (ds @ v # r) = ds @ v # r"
  using assms takeWhile_digits_unit [of ds v r] dropWhile_digits_unit [of ds v r]
  by (simp add: opt_group_def)

lemma opt_group_cases:
  "opt_group u s = s \<or> (\<exists>ds. ds \<noteq> [] \<and> list_all is_digit ds \<and> s = ds @ u # opt_group u s)"
proof (cases "takeWhile is_digit s \<noteq> [] \<and> dropWhile is_digit s \<noteq> []
              \<and> hd (dropWhile is_digit s) = u")
  case False
  then show ?thesis
    by (auto simp: opt_group_def)
next
  case True
  then have og: "opt_group u s = tl (dropWhile is_digit s)"
    by (simp add: opt_group_def)
  from True have dw: "dropWhile is_digit s = u # tl (dropWhile is_digit s)"
    by (cases "dropWhile is_digit s") auto
  have "s = takeWhile is_digit s @ dropWhile is_digit s"
    by simp
  with dw og have "s = takeWhile is_digit s @ u # opt_group u s"
    by simp
  moreover have "list_all is_digit (takeWhile is_digit s)"
    by (simp add: list_all_iff) (meson set_takeWhileD)
  ultimately show ?thesis
    using True by blast
qed

lemma opt_group_takes:
  "\<exists>x. (x = [] \<or> grammar_segment u x) \<and> s = x @ opt_group u s"
proof -
  from opt_group_cases [of u s] show ?thesis
  proof
    assume "opt_group u s = s"
    then show ?thesis by auto
  next
    assume "\<exists>ds. ds \<noteq> [] \<and> list_all is_digit ds \<and> s = ds @ u # opt_group u s"
    then obtain ds where ds: "ds \<noteq> []" "list_all is_digit ds" "s = ds @ u # opt_group u s"
      by blast
    then have "grammar_segment u (ds @ [u])"
      by (auto simp: grammar_segment_def)
    moreover from ds have "s = (ds @ [u]) @ opt_group u s"
      by simp
    ultimately show ?thesis by blast
  qed
qed

lemma intervalRegex_matches_imp_grammar:
  assumes "intervalRegex_matches s"
  shows "interval_grammar s"
proof -
  obtain a where a: "a = [] \<or> grammar_segment CHR ''d'' a" "s = a @ opt_group CHR ''d'' s"
    using opt_group_takes [of "CHR ''d''" s] by blast
  obtain b where b: "b = [] \<or> grammar_segment CHR ''h'' b"
    "opt_group CHR ''d'' s = b @ opt_group CHR ''h'' (opt_group CHR ''d'' s)"
    using opt_group_takes [of "CHR ''h''" "opt_group CHR ''d'' s"] by blast
  obtain c where c: "c = [] \<or> grammar_segment CHR ''m'' c"
    "opt_group CHR ''h'' (opt_group CHR ''d'' s)
     = c @ opt_group CHR ''m'' (opt_group CHR ''h'' (opt_group CHR ''d'' s))"
    using opt_group_takes [of "CHR ''m''" "opt_group CHR ''h'' (opt_group CHR ''d'' s)"] by blast
  from assms c(2) have "opt_group CHR ''h'' (opt_group CHR ''d'' s) = c"
    by (simp add: intervalRegex_matches_def)
  with b(2) have "opt_group CHR ''d'' s = b @ c" by simp
  with a(2) have "s = a @ b @ c" by simp
  with a(1) b(1) c(1) show ?thesis
    unfolding interval_grammar_def by blast
qed

lemma opt_group_skip:
  assumes "x = [] \<or> grammar_segment v x" "v \<noteq> u" "\<not> is_digit v"
    and "x = [] \<Longrightarrow> opt_group u r = r"
  shows "opt_group u (x @ r) = x @ r"
proof (cases "x = []")
  case True
  with assms(4) show ?thesis by simp
next
  case False
  with assms(1) obtain ds where "ds \<noteq> []" "list_all is_digit ds" "x = ds @ [v]"
    by (auto simp: grammar_segment_def)
  then show ?thesis
    using opt_group_other [of ds v u r] assms(2,3) by simp
qed

lemma opt_group_take:
  assumes "x = [] \<or> grammar_segment u x" "\<not> is_digit u"
    and "x = [] \<Longrightarrow> opt_group u r = r"
  shows "opt_group u (x @ r) = r"
proof (cases "x = []")
  case True
  with assms(3) show ?thesis by simp
next
  case False
  with assms(1) obtain ds where "ds \<noteq> []" "list_all is_digit ds" "x = ds @ [u]"
    by (auto simp: grammar_segment_def)
  then show ?thesis
    using opt_group_segment [of u ds r] assms(2) by simp
qed

lemma grammar_imp_intervalRegex_matches:
  assumes "interval_grammar s"
  shows "intervalRegex_matches s"
proof -
  from assms obtain a b c where s: "s = a @ b @ c"
    and a: "a = [] \<or> grammar_segment CHR ''d'' a"
    and b: "b = [] \<or> grammar_segment CHR ''h'' b"
    and c: "c = [] \<or> grammar_segment CHR ''m'' c"
    unfolding interval_grammar_def by blast
  have nd: "\<not> is_digit CHR ''d''" "\<not> is_digit CHR ''h''" "\<not> is_digit CHR ''m''"
    by (simp_all add: is_digit_def)
  have c_d: "opt_group CHR ''d'' c = c"
    using opt_group_skip [of c "CHR ''m''" "CHR ''d''" "[]"] c nd
    by (simp add: opt_group_Nil)
  have c_h: "opt_group CHR ''h'' c = c"
    using opt_group_skip [of c "CHR ''m''" "CHR ''h''" "[]"] c nd
    by (simp add: opt_group_Nil)
  have bc_d: "opt_group CHR ''d'' (b @ c) = b @ c"
    using opt_group_skip [of b "CHR ''h''" "CHR ''d''" c] b nd c_d by simp
  have step_d: "opt_group CHR ''d'' (a @ b @ c) = b @ c"
    using opt_group_take [of a "CHR ''d''" "b @ c"] a nd bc_d by simp
  have step_h: "opt_group CHR ''h'' (b @ c) = c"
    using opt_group_take [of b "CHR ''h''" c] b nd c_h by simp
  have step_m: "opt_group CHR ''m'' c = []"
    using opt_group_take [of c "CHR ''m''" "[]"] c nd by (simp add: opt_group_Nil)
  show ?thesis
    by (simp add: intervalRegex_matches_def s step_d step_h step_m)
qed

lemma intervalRegex_matches_iff: "intervalRegex_matches s \<longleftrightarrow> interval_grammar s"
  using intervalRegex_matches_imp_grammar grammar_imp_intervalRegex_matches by blast

section \<open>Properties of \<open>ParsePullPolicy\<close> and \<open>String\<close>\<close>

lemma strings_HasPrefix_iff: "strings_HasPrefix s pre \<longleftrightarrow> (\<exists>r. s = pre @ r)"
proof
  assume "strings_HasPrefix s pre"
  then have "s = pre @ drop (length pre) s"
    unfolding strings_HasPrefix_def by (metis append_take_drop_id)
  then show "\<exists>r. s = pre @ r" ..
next
  assume "\<exists>r. s = pre @ r"
  then show "strings_HasPrefix s pre"
    unfolding strings_HasPrefix_def by auto
qed

lemma strings_TrimPrefix_append: "strings_TrimPrefix (pre @ r) pre = r"
  by (simp add: strings_TrimPrefix_def strings_HasPrefix_def)

lemma map_of_nameMap:
  "map_of nameMap policy =
     (if policy = ''always'' then Some PullAlways
      else if policy = ''never'' then Some PullNever
      else if policy = ''if-not-present'' then Some PullIfNotPresent
      else if policy = [] then Some PullAlways
      else None)"
  by (simp add: nameMap_def)

lemma ParsePullPolicy_interval:
  assumes "map_of nameMap (''interval='' @ spec) = None"
  shows "fst (ParsePullPolicy (''interval='' @ spec) st)
         = (if interval_grammar spec then Ok PullWithInterval
            else Err (New (''invalid interval format: '' @ spec)))"
proof -
  have pre: "strings_HasPrefix (''interval='' @ spec) ''interval=''"
    by (simp add: strings_HasPrefix_def)
  have trim: "strings_TrimPrefix (''interval='' @ spec) ''interval='' = spec"
    by (rule strings_TrimPrefix_append)
  show ?thesis
    unfolding ParsePullPolicy_def Let_def
    by (simp only: assms option.case pre trim if_True intervalRegex_matches_iff)
       (simp split: if_splits)
qed

text \<open>
  C4, as the code has it. \<open>ParsePullPolicy\<close> takes \<open>always\<close> and the empty text as
  \<open>PullAlways\<close>, \<open>never\<close>, \<open>if-not-present\<close>, and \<open>interval=\<close> followed by a text of the
  interval grammar as \<open>PullWithInterval\<close>; every other text is an error: the invalid
  interval format after the prefix \<open>interval=\<close>, the invalid pull policy otherwise.
\<close>

theorem ParsePullPolicy_grammar:
  "fst (ParsePullPolicy policy st) =
     (if policy = ''always'' \<or> policy = [] then Ok PullAlways
      else if policy = ''never'' then Ok PullNever
      else if policy = ''if-not-present'' then Ok PullIfNotPresent
      else if \<exists>spec. policy = ''interval='' @ spec \<and> interval_grammar spec
        then Ok PullWithInterval
      else if strings_HasPrefix policy ''interval=''
        then Err (New (''invalid interval format: ''
                        @ strings_TrimPrefix policy ''interval=''))
      else Err (New (''invalid pull policy '' @ policy)))"
proof (cases "map_of nameMap policy")
  case (Some val)
  then have "policy = ''always'' \<or> policy = ''never'' \<or> policy = ''if-not-present''
             \<or> policy = []"
    by (simp add: map_of_nameMap split: if_splits)
  then show ?thesis
    by (auto simp: ParsePullPolicy_def nameMap_def)
next
  case None
  then have no: "policy \<noteq> ''always''" "policy \<noteq> []" "policy \<noteq> ''never''"
    "policy \<noteq> ''if-not-present''"
    by (auto simp: map_of_nameMap split: if_splits)
  show ?thesis
  proof (cases "strings_HasPrefix policy ''interval=''")
    case True
    then obtain spec where p: "policy = ''interval='' @ spec"
      unfolding strings_HasPrefix_iff by blast
    have "fst (ParsePullPolicy policy st)
          = (if interval_grammar spec then Ok PullWithInterval
             else Err (New (''invalid interval format: '' @ spec)))"
      using ParsePullPolicy_interval [of spec st] None p by simp
    moreover have "(\<exists>spec'. policy = ''interval='' @ spec' \<and> interval_grammar spec')
                   \<longleftrightarrow> interval_grammar spec"
      using p by auto
    moreover have "strings_TrimPrefix policy ''interval='' = spec"
      using p strings_TrimPrefix_append [of "''interval=''" spec] by simp
    ultimately show ?thesis
      using no True by simp
  next
    case False
    then have "\<not> (\<exists>spec. policy = ''interval='' @ spec \<and> interval_grammar spec)"
      unfolding strings_HasPrefix_iff by blast
    moreover have "fst (ParsePullPolicy policy st) = Err (New (''invalid pull policy '' @ policy))"
      using None False by (simp add: ParsePullPolicy_def)
    ultimately show ?thesis
      using no False by simp
  qed
qed

text \<open>
  C4, as stated, has \<open>hourly\<close>, \<open>daily\<close> and \<open>weekly\<close> parse without error. \<open>nameMap\<close> has
  no entry for them and they do not start with \<open>interval=\<close>.
\<close>

theorem ParsePullPolicy_rejects_hourly:
  "fst (ParsePullPolicy ''hourly'' \<lparr>interval = [], files = fresh_machine\<rparr>)
   = Err (New ''invalid pull policy hourly'')"
  by (simp add: ParsePullPolicy_def nameMap_def strings_HasPrefix_def)

text \<open>
  C8. Parsing one of \<open>always\<close>, \<open>never\<close>, \<open>if-not-present\<close> and rendering the policy
  gives the text back, in every state of the package.
\<close>

theorem parse_then_String_literals:
  assumes "text \<in> {''always'', ''never'', ''if-not-present''}"
  shows "parse_then_String text st = Ok text"
  using assms
  by (auto simp: parse_then_String_def ParsePullPolicy_def nameMap_def)

text \<open>The literal \<open>never\<close> on a machine with no ledger yet.\<close>

theorem parse_then_String_literals_witness:
  "''never'' \<in> {''always'', ''never'', ''if-not-present''}
   \<and> parse_then_String ''never'' \<lparr>interval = [], files = fresh_machine\<rparr> = Ok ''never''"
proof -
  have h: "''never'' \<in> {''always'', ''never'', ''if-not-present''}"
    by simp
  from h parse_then_String_literals [OF h] show ?thesis
    by simp
qed

text \<open>
  The two texts left out of C8: \<open>interval=<spec>\<close> is rendered from the package variable
  \<open>interval\<close>, to which the parse assigns the whole text, prefix included; the empty text
  is rendered as \<open>always\<close>.
\<close>

lemma parse_then_String_interval:
  assumes "interval_grammar spec"
  shows "parse_then_String (''interval='' @ spec) st = Ok (''interval=interval='' @ spec)"
proof -
  have none: "map_of nameMap (''interval='' @ spec) = None"
    by (simp add: map_of_nameMap)
  have pre: "strings_HasPrefix (''interval='' @ spec) ''interval=''"
    by (simp add: strings_HasPrefix_def)
  have trim: "strings_TrimPrefix (''interval='' @ spec) ''interval='' = spec"
    by (rule strings_TrimPrefix_append)
  from assms have m: "intervalRegex_matches spec"
    by (simp add: intervalRegex_matches_iff)
  show ?thesis
    unfolding parse_then_String_def ParsePullPolicy_def Let_def
    by (simp only: none option.case pre trim if_True m not_True_eq_False if_False)
       simp
qed

lemma parse_then_String_empty: "parse_then_String [] st = Ok ''always''"
  by (simp add: parse_then_String_def ParsePullPolicy_def nameMap_def)

text \<open>The order of the segments is checked here, by \<open>intervalRegex\<close>.\<close>

lemma ParsePullPolicy_rejects_interval_out_of_order:
  "fst (ParsePullPolicy ''interval=1h2d'' st) = Err (New ''invalid interval format: 1h2d'')"
  by (simp add: ParsePullPolicy_def nameMap_def strings_HasPrefix_def strings_TrimPrefix_def
      intervalRegex_matches_def opt_group_def is_digit_def)

section \<open>Properties of the ledger\<close>

lemma readImageJSON_Inr:
  assumes "readImageJSON fs = (Inr imageJSON, fs1)"
  shows "home_dir_ok fs1 \<and> dir_exists fs1 \<and> \<not> read_fails fs1
         \<and> ledger_file fs1 = Some (Doc imageJSON)
         \<and> write_fails fs1 = write_fails fs"
  using assms unfolding readImageJSON_def Let_def
  by (auto split: if_splits option.splits file_content.splits)

lemma readImageJSON_keeps_file:
  assumes "readImageJSON fs = (r, fs1)" "ledger_file fs \<noteq> None"
  shows "ledger_file fs1 = ledger_file fs"
  using assms unfolding readImageJSON_def Let_def
  by (auto split: if_splits option.splits file_content.splits)

lemma readImageJSON_new_file:
  assumes "readImageJSON fs = (Inr imageJSON, fs1)" "ledger_file fs = None"
  shows "imageJSON = minimumJSON"
  using assms unfolding readImageJSON_def Let_def
  by (auto split: if_splits option.splits file_content.splits)

lemma readImageJSON_stable:
  assumes "home_dir_ok fs" "dir_exists fs" "\<not> read_fails fs"
    "ledger_file fs = Some (Doc imageJSON)"
  shows "readImageJSON fs = (Inr imageJSON, fs)"
  using assms unfolding readImageJSON_def Let_def by simp

lemma threshold_iff:
  assumes "- (2 ^ 63) < d" "d < 2 ^ 63"
  shows "t < now + wrap64 (- d) \<longleftrightarrow> d < now - t"
proof -
  have "wrap64 (- d) = - d"
    using assms by (intro wrap64_id) simp_all
  then show ?thesis by auto
qed

text \<open>
  C1, as the code has it. When the ledger can be read: for a key with no entry the
  answer is \<open>true\<close>; for a key with an entry whose timestamp and the pulling interval
  parse, the answer is \<open>true\<close> exactly when \<open>now\<close> minus the timestamp is greater than the
  interval, so \<open>false\<close> when the two are equal. (\<open>Before\<close> is strict. The one duration
  left out, \<open>- 2 ^ 63\<close>, is its own negation in 64 bits.)
\<close>

theorem CheckImagePullInterval_spec:
  assumes "readImageJSON fs = (Inr imageJSON, fs1)"
  shows "(map_of (ImageIDtoTIME imageJSON) imageID = None \<longrightarrow>
            fst (CheckImagePullInterval time_Parse now imageID fs) = Ok True)
       \<and> (map_of (ImageIDtoTIME imageJSON) imageID = Some timestamp
          \<and> time_Parse timestamp = Some t
          \<and> parseDurationString (PullingInterval imageJSON) = Ok d
          \<and> - (2 ^ 63) < d \<longrightarrow>
            fst (CheckImagePullInterval time_Parse now imageID fs) = Ok (d < now - t))"
proof (intro conjI impI)
  assume "map_of (ImageIDtoTIME imageJSON) imageID = None"
  with assms show "fst (CheckImagePullInterval time_Parse now imageID fs) = Ok True"
    by (simp add: CheckImagePullInterval_def)
next
  assume h: "map_of (ImageIDtoTIME imageJSON) imageID = Some timestamp
          \<and> time_Parse timestamp = Some t
          \<and> parseDurationString (PullingInterval imageJSON) = Ok d
          \<and> - (2 ^ 63) < d"
  then have "d < 2 ^ 63"
    using parseDurationString_range [of "PullingInterval imageJSON" d] by simp
  with h have "t < now + wrap64 (- d) \<longleftrightarrow> d < now - t"
    using threshold_iff [of d t now] by simp
  with assms h show "fst (CheckImagePullInterval time_Parse now imageID fs) = Ok (d < now - t)"
    by (simp add: CheckImagePullInterval_def)
qed

lemma parse_1m: "parseDurationString ''1m'' = Ok 60000000000"
  by (simp add: parseDurationString_def Atoi_def is_digit_def digit_val_def wrap64_def
      time_Minute_def)

lemma read_example: "readImageJSON (machine_with example_ledger)
    = (Inr example_ledger, machine_with example_ledger)"
  by (rule readImageJSON_stable) (simp_all add: machine_with_def)

text \<open>
  On the example ledger, with a pulling interval of one minute: a key with no entry,
  and the key stamped at midnight on 1 January 2024, 61 and 59 seconds later.
\<close>

theorem CheckImagePullInterval_spec_witness:
  "fst (CheckImagePullInterval example_time_Parse 1704067261000000000 ''nginx''
          (machine_with example_ledger)) = Ok True
   \<and> fst (CheckImagePullInterval example_time_Parse 1704067261000000000 ''busybox''
          (machine_with example_ledger)) = Ok True
   \<and> fst (CheckImagePullInterval example_time_Parse 1704067259000000000 ''busybox''
          (machine_with example_ledger)) = Ok False"
proof -
  have absent: "map_of (ImageIDtoTIME example_ledger) ''nginx'' = None"
    by (simp add: example_ledger_def)
  have present: "map_of (ImageIDtoTIME example_ledger) ''busybox'' = Some ''2024-01-01T00:00:00Z''
    \<and> example_time_Parse ''2024-01-01T00:00:00Z'' = Some 1704067200000000000
    \<and> parseDurationString (PullingInterval example_ledger) = Ok 60000000000
    \<and> - (2 ^ 63) < (60000000000 :: int)"
    by (simp add: example_ledger_def example_time_Parse_def parse_1m)
  from absent present
    CheckImagePullInterval_spec [OF read_example, where imageID = "''nginx''"
      and time_Parse = example_time_Parse and now = 1704067261000000000]
    CheckImagePullInterval_spec [OF read_example, where imageID = "''busybox''"
      and timestamp = "''2024-01-01T00:00:00Z''" and time_Parse = example_time_Parse
      and t = 1704067200000000000 and d = 60000000000 and now = 1704067261000000000]
    CheckImagePullInterval_spec [OF read_example, where imageID = "''busybox''"
      and timestamp = "''2024-01-01T00:00:00Z''" and time_Parse = example_time_Parse
      and t = 1704067200000000000 and d = 60000000000 and now = 1704067259000000000]
  show ?thesis
    by simp
qed

text \<open>
  C1, as stated, has the answer \<open>true\<close> when the time passed equals the interval. With
  an interval of one minute and an entry exactly one minute old the answer is \<open>false\<close>.
\<close>

theorem CheckImagePullInterval_boundary:
  "map_of (ImageIDtoTIME example_ledger) ''busybox'' = Some ''2024-01-01T00:00:00Z''
   \<and> example_time_Parse ''2024-01-01T00:00:00Z'' = Some 1704067200000000000
   \<and> parseDurationString (PullingInterval example_ledger) = Ok 60000000000
   \<and> 1704067260000000000 - 1704067200000000000 = (60000000000 :: int)
   \<and> fst (CheckImagePullInterval example_time_Parse 1704067260000000000 ''busybox''
          (machine_with example_ledger)) = Ok False"
  using read_example
  by (simp add: CheckImagePullInterval_def example_ledger_def example_time_Parse_def parse_1m
      wrap64_def)

lemma prune_range_map_of:
  assumes "prune_range time_Parse thr ids m = Inr m'"
  shows "map_of m' k = (if k \<in> set ids then prune_keeps time_Parse thr (map_of m k)
                        else map_of m k)"
  using assms
proof (induction ids arbitrary: m)
  case Nil
  then show ?case by simp
next
  case (Cons imageID ids)
  show ?case
  proof (cases "map_of m imageID")
    case None
    with Cons.prems have "prune_range time_Parse thr ids m = Inr m'"
      by simp
    from Cons.IH [OF this] None show ?thesis
      by (auto simp: prune_keeps_def)
  next
    case (Some timestamp)
    with Cons.prems obtain imageTimestamp where p: "time_Parse timestamp = Some imageTimestamp"
      by (cases "time_Parse timestamp") auto
    let ?m1 = "if imageTimestamp < thr then AList.delete imageID m else m"
    from Cons.prems Some p have "prune_range time_Parse thr ids ?m1 = Inr m'"
      by simp
    from Cons.IH [OF this]
    have ih: "map_of m' k = (if k \<in> set ids then prune_keeps time_Parse thr (map_of ?m1 k)
                             else map_of ?m1 k)" .
    show ?thesis
    proof (cases "k = imageID")
      case True
      with ih Some p show ?thesis
        by (auto simp: prune_keeps_def delete_conv')
    next
      case False
      with ih show ?thesis
        by (auto simp: delete_conv')
    qed
  qed
qed

lemma prune_range_succeeds:
  assumes "\<forall>k timestamp. map_of m k = Some timestamp \<longrightarrow> time_Parse timestamp \<noteq> None"
  shows "\<exists>m'. prune_range time_Parse thr ids m = Inr m'"
  using assms
proof (induction ids arbitrary: m)
  case Nil
  then show ?case by simp
next
  case (Cons imageID ids)
  show ?case
  proof (cases "map_of m imageID")
    case None
    with Cons show ?thesis by simp
  next
    case (Some timestamp)
    with Cons.prems have "time_Parse timestamp \<noteq> None"
      by blast
    then obtain imageTimestamp where p: "time_Parse timestamp = Some imageTimestamp"
      by auto
    have "\<forall>k ts. map_of (AList.delete imageID m) k = Some ts \<longrightarrow> time_Parse ts \<noteq> None"
      using Cons.prems by (auto simp: delete_conv' split: if_splits)
    with Cons.IH Cons.prems
    have "\<exists>m'. prune_range time_Parse thr ids
                 (if imageTimestamp < thr then AList.delete imageID m else m) = Inr m'"
      by (cases "imageTimestamp < thr") simp_all
    with Some p show ?thesis by simp
  qed
qed

lemma list_all_parse_map_of:
  assumes "list_all (\<lambda>entry. time_Parse (snd entry) \<noteq> None) m"
  shows "\<forall>k timestamp. map_of m k = Some timestamp \<longrightarrow> time_Parse timestamp \<noteq> None"
proof (intro allI impI)
  fix k timestamp
  assume "map_of m k = Some timestamp"
  then have "(k, timestamp) \<in> set m"
    by (rule map_of_SomeD)
  with assms show "time_Parse timestamp \<noteq> None"
    by (auto simp: list_all_iff)
qed

lemma prune_range_all_keys:
  assumes "prune_range time_Parse thr (map fst m) m = Inr m'"
  shows "map_of m' k = prune_keeps time_Parse thr (map_of m k)"
proof (cases "k \<in> set (map fst m)")
  case True
  with prune_range_map_of [OF assms, of k] show ?thesis by simp
next
  case False
  then have "map_of m k = None"
    by (simp add: map_of_eq_None_iff)
  with False prune_range_map_of [OF assms, of k] show ?thesis
    by (simp add: prune_keeps_def)
qed

lemma time_Sub_less_iff:
  assumes "- (2 ^ 63) < d" "d < 2 ^ 63"
  shows "time_Sub now lp < d \<longleftrightarrow> now - lp < d"
  using assms unfolding time_Sub_def by auto

lemma PruneOldImages_not_due:
  assumes read: "readImageJSON fs = (Inr imageJSON, fs1)"
    and d: "parseDurationString (PruningIinterval imageJSON) = Ok d" "- (2 ^ 63) < d"
    and lp: "LastPrune imageJSON \<noteq> []" "time_Parse (LastPrune imageJSON) = Some lastPruneTime"
    and early: "since_now - lastPruneTime < d"
  shows "PruneOldImages time_Parse time_Format since_now threshold_now stamp_now fs = (Ok (), fs1)
         \<and> ledger_file fs1 = ledger_file fs"
proof -
  from d have "d < 2 ^ 63"
    using parseDurationString_range [of "PruningIinterval imageJSON" d] by simp
  with d early have "time_Sub since_now lastPruneTime < d"
    using time_Sub_less_iff [of d since_now lastPruneTime] by simp
  with d lp have "prune_not_due time_Parse since_now imageJSON = Some (Ok ())"
    by (simp add: prune_not_due_def)
  with read have 1: "PruneOldImages time_Parse time_Format since_now threshold_now stamp_now fs
      = (Ok (), fs1)"
    by (simp add: PruneOldImages_def)
  have "ledger_file fs \<noteq> None"
  proof
    assume "ledger_file fs = None"
    with read have "imageJSON = minimumJSON"
      by (rule readImageJSON_new_file)
    with lp(1) show False
      by (simp add: minimumJSON_def)
  qed
  with read have "ledger_file fs1 = ledger_file fs"
    by (rule readImageJSON_keeps_file)
  with 1 show ?thesis by simp
qed

lemma PruneOldImages_due:
  assumes read: "readImageJSON fs = (Inr imageJSON, fs1)"
    and d: "parseDurationString (PruningIinterval imageJSON) = Ok d" "- (2 ^ 63) < d"
    and due: "LastPrune imageJSON = []
              \<or> (time_Parse (LastPrune imageJSON) = Some lastPruneTime
                  \<and> d \<le> since_now - lastPruneTime)"
    and stamps: "list_all (\<lambda>entry. time_Parse (snd entry) \<noteq> None) (ImageIDtoTIME imageJSON)"
    and wr: "\<not> write_fails fs"
  shows "\<exists>m'. PruneOldImages time_Parse time_Format since_now threshold_now stamp_now fs
          = (Ok (), fs1\<lparr>ledger_file := Some (Doc (imageJSON\<lparr>ImageIDtoTIME := m',
                                 LastPrune := time_Format stamp_now\<rparr>))\<rparr>)
        \<and> (\<forall>k. map_of m' k
               = prune_keeps time_Parse (threshold_now - d) (map_of (ImageIDtoTIME imageJSON) k))"
proof -
  from d have dr: "d < 2 ^ 63"
    using parseDurationString_range [of "PruningIinterval imageJSON" d] by simp
  have gate: "prune_not_due time_Parse since_now imageJSON = None"
  proof (cases "LastPrune imageJSON = []")
    case True
    then show ?thesis by (simp add: prune_not_due_def)
  next
    case False
    with due have lp: "time_Parse (LastPrune imageJSON) = Some lastPruneTime"
      and late: "d \<le> since_now - lastPruneTime"
      by auto
    from d dr late have "\<not> time_Sub since_now lastPruneTime < d"
      using time_Sub_less_iff [of d since_now lastPruneTime] by simp
    with False lp d show ?thesis
      by (simp add: prune_not_due_def)
  qed
  have thr: "threshold_now + wrap64 (- d) = threshold_now - d"
    using d dr wrap64_id [of "- d"] by simp
  obtain m' where m': "prune_range time_Parse (threshold_now - d)
      (map fst (ImageIDtoTIME imageJSON)) (ImageIDtoTIME imageJSON) = Inr m'"
    using prune_range_succeeds [OF list_all_parse_map_of [OF stamps]] by blast
  from read wr have "\<not> write_fails fs1"
    using readImageJSON_Inr [OF read] by simp
  with read gate d thr m'
  have "PruneOldImages time_Parse time_Format since_now threshold_now stamp_now fs
        = (Ok (), fs1\<lparr>ledger_file := Some (Doc (imageJSON\<lparr>ImageIDtoTIME := m',
                               LastPrune := time_Format stamp_now\<rparr>))\<rparr>)"
    by (simp add: PruneOldImages_def os_WriteFile_def)
  moreover have "\<forall>k. map_of m' k
      = prune_keeps time_Parse (threshold_now - d) (map_of (ImageIDtoTIME imageJSON) k)"
    using prune_range_all_keys [OF m'] by simp
  ultimately show ?thesis by blast
qed

lemma PruneOldImages_again:
  assumes read: "readImageJSON fs = (Inr imageJSON, fs1)"
    and d: "parseDurationString (PruningIinterval imageJSON) = Ok d" "- (2 ^ 63) < d"
    and run: "PruneOldImages time_Parse time_Format since_now threshold_now stamp_now fs
          = (Ok (), fs1\<lparr>ledger_file := Some (Doc (imageJSON\<lparr>ImageIDtoTIME := m',
                                 LastPrune := time_Format stamp_now\<rparr>))\<rparr>)"
    and stamp: "time_Format stamp_now \<noteq> []" "time_Parse (time_Format stamp_now) = Some stamped"
    and early: "again_now - stamped < d"
  shows "PruneOldImages time_Parse time_Format again_now threshold_again stamp_again
           (snd (PruneOldImages time_Parse time_Format since_now threshold_now stamp_now fs))
         = (Ok (), snd (PruneOldImages time_Parse time_Format since_now threshold_now stamp_now fs))"
proof -
  let ?j2 = "imageJSON\<lparr>ImageIDtoTIME := m', LastPrune := time_Format stamp_now\<rparr>"
  let ?fs2 = "fs1\<lparr>ledger_file := Some (Doc ?j2)\<rparr>"
  have fs2: "snd (PruneOldImages time_Parse time_Format since_now threshold_now stamp_now fs) = ?fs2"
    using run by simp
  have "readImageJSON ?fs2 = (Inr ?j2, ?fs2)"
    using readImageJSON_Inr [OF read] by (intro readImageJSON_stable) simp_all
  then have "PruneOldImages time_Parse time_Format again_now threshold_again stamp_again ?fs2
             = (Ok (), ?fs2) \<and> ledger_file ?fs2 = ledger_file ?fs2"
    using d stamp early by (intro PruneOldImages_not_due [where d = d and imageJSON = ?j2
          and lastPruneTime = stamped]) simp_all
  with fs2 show ?thesis by simp
qed

text \<open>
  C6. When the ledger can be read and the pruning interval parses to \<open>d\<close>:
  \<^item> if \<open>last_prune\<close> is set and \<open>now - last_prune < d\<close>, \<open>PruneOldImages\<close> returns \<open>nil\<close>
    and the ledger file is as it was;
  \<^item> otherwise, when the timestamps of the entries parse and the file can be written,
    it returns \<open>nil\<close> and the file holds the document with exactly the entries stamped
    before \<open>now - d\<close> removed and \<open>last_prune\<close> the text of \<open>now\<close>;
  \<^item> and a call after that, less than \<open>d\<close> after the \<open>last_prune\<close> just written, returns
    \<open>nil\<close> and leaves the machine as the first call left it.
\<close>

theorem PruneOldImages_spec:
  assumes read: "readImageJSON fs = (Inr imageJSON, fs1)"
    and d: "parseDurationString (PruningIinterval imageJSON) = Ok d" "- (2 ^ 63) < d"
  shows
    "(LastPrune imageJSON \<noteq> [] \<and> time_Parse (LastPrune imageJSON) = Some lastPruneTime
        \<and> since_now - lastPruneTime < d \<longrightarrow>
      PruneOldImages time_Parse time_Format since_now threshold_now stamp_now fs = (Ok (), fs1)
        \<and> ledger_file fs1 = ledger_file fs)
     \<and> ((LastPrune imageJSON = []
           \<or> (time_Parse (LastPrune imageJSON) = Some lastPruneTime
               \<and> d \<le> since_now - lastPruneTime))
         \<and> list_all (\<lambda>entry. time_Parse (snd entry) \<noteq> None) (ImageIDtoTIME imageJSON)
         \<and> \<not> write_fails fs \<longrightarrow>
      (\<exists>m'. PruneOldImages time_Parse time_Format since_now threshold_now stamp_now fs
              = (Ok (), fs1\<lparr>ledger_file := Some (Doc (imageJSON\<lparr>ImageIDtoTIME := m',
                                     LastPrune := time_Format stamp_now\<rparr>))\<rparr>)
           \<and> (\<forall>k. map_of m' k = prune_keeps time_Parse (threshold_now - d)
                                     (map_of (ImageIDtoTIME imageJSON) k)))
      \<and> (time_Format stamp_now \<noteq> [] \<and> time_Parse (time_Format stamp_now) = Some stamped
           \<and> again_now - stamped < d \<longrightarrow>
         PruneOldImages time_Parse time_Format again_now threshold_again stamp_again
           (snd (PruneOldImages time_Parse time_Format since_now threshold_now stamp_now fs))
         = (Ok (),
            snd (PruneOldImages time_Parse time_Format since_now threshold_now stamp_now fs))))"
proof (intro conjI impI)
  assume "LastPrune imageJSON \<noteq> [] \<and> time_Parse (LastPrune imageJSON) = Some lastPruneTime
        \<and> since_now - lastPruneTime < d"
  then have "PruneOldImages time_Parse time_Format since_now threshold_now stamp_now fs = (Ok (), fs1)
         \<and> ledger_file fs1 = ledger_file fs"
    using PruneOldImages_not_due [OF read d] by blast
  then show "PruneOldImages time_Parse time_Format since_now threshold_now stamp_now fs = (Ok (), fs1)"
    and "ledger_file fs1 = ledger_file fs"
    by simp_all
next
  assume due: "(LastPrune imageJSON = []
           \<or> (time_Parse (LastPrune imageJSON) = Some lastPruneTime
               \<and> d \<le> since_now - lastPruneTime))
         \<and> list_all (\<lambda>entry. time_Parse (snd entry) \<noteq> None) (ImageIDtoTIME imageJSON)
         \<and> \<not> write_fails fs"
  then show "\<exists>m'. PruneOldImages time_Parse time_Format since_now threshold_now stamp_now fs
              = (Ok (), fs1\<lparr>ledger_file := Some (Doc (imageJSON\<lparr>ImageIDtoTIME := m',
                                     LastPrune := time_Format stamp_now\<rparr>))\<rparr>)
           \<and> (\<forall>k. map_of m' k = prune_keeps time_Parse (threshold_now - d)
                                     (map_of (ImageIDtoTIME imageJSON) k))"
    using PruneOldImages_due [OF read d, of time_Parse lastPruneTime since_now] by blast
next
  assume due: "(LastPrune imageJSON = []
           \<or> (time_Parse (LastPrune imageJSON) = Some lastPruneTime
               \<and> d \<le> since_now - lastPruneTime))
         \<and> list_all (\<lambda>entry. time_Parse (snd entry) \<noteq> None) (ImageIDtoTIME imageJSON)
         \<and> \<not> write_fails fs"
    and again: "time_Format stamp_now \<noteq> [] \<and> time_Parse (time_Format stamp_now) = Some stamped
           \<and> again_now - stamped < d"
  from due obtain m' where
    "PruneOldImages time_Parse time_Format since_now threshold_now stamp_now fs
       = (Ok (), fs1\<lparr>ledger_file := Some (Doc (imageJSON\<lparr>ImageIDtoTIME := m',
                                     LastPrune := time_Format stamp_now\<rparr>))\<rparr>)"
    using PruneOldImages_due [OF read d, of time_Parse lastPruneTime since_now time_Format
        threshold_now stamp_now]
    by blast
  with again show "PruneOldImages time_Parse time_Format again_now threshold_again stamp_again
           (snd (PruneOldImages time_Parse time_Format since_now threshold_now stamp_now fs))
         = (Ok (),
            snd (PruneOldImages time_Parse time_Format since_now threshold_now stamp_now fs))"
    using PruneOldImages_again [OF read d] by blast
qed

lemma parse_7d: "parseDurationString ''7d'' = Ok 604800000000000"
  by (simp add: parseDurationString_def Atoi_def is_digit_def digit_val_def wrap64_def
      time_Minute_def)

lemma read_example_pruned: "readImageJSON (machine_with example_pruned)
    = (Inr example_pruned, machine_with example_pruned)"
  by (rule readImageJSON_stable) (simp_all add: machine_with_def)

lemma PruneOldImages_example:
  "PruneOldImages example_time_Parse example_time_Format
     1704844800000000000 1704844800000000000 1704844800000000000 (machine_with example_ledger)
   = (Ok (), machine_with example_pruned)"
  unfolding PruneOldImages_def read_example
  by (simp add: prune_not_due_def example_ledger_def parse_7d
      wrap64_def example_time_Parse_def example_time_Format_def os_WriteFile_def
      machine_with_def example_pruned_def AList.delete_eq)

text \<open>
  On the example ledger at midnight on 10 January 2024: the entry of 1 January is
  removed and the entry of 10 January is kept; one hour later nothing changes.
\<close>

theorem PruneOldImages_spec_witness:
  "PruneOldImages example_time_Parse example_time_Format
     1704844800000000000 1704844800000000000 1704844800000000000 (machine_with example_ledger)
   = (Ok (), machine_with example_pruned)
   \<and> map_of (ImageIDtoTIME example_pruned) ''busybox'' = None
   \<and> map_of (ImageIDtoTIME example_pruned) ''alpine'' = Some ''2024-01-10T00:00:00Z''
   \<and> PruneOldImages example_time_Parse example_time_Format
       1704848400000000000 1704848400000000000 1704848400000000000 (machine_with example_pruned)
     = (Ok (), machine_with example_pruned)"
proof -
  have d: "parseDurationString (PruningIinterval example_ledger) = Ok 604800000000000"
    "- (2 ^ 63) < (604800000000000 :: int)"
    by (simp_all add: example_ledger_def parse_7d)
  have due: "(LastPrune example_ledger = []
       \<or> (example_time_Parse (LastPrune example_ledger) = Some 0
           \<and> 604800000000000 \<le> 1704844800000000000 - (0 :: int)))
     \<and> list_all (\<lambda>entry. example_time_Parse (snd entry) \<noteq> None) (ImageIDtoTIME example_ledger)
     \<and> \<not> write_fails (machine_with example_ledger)"
    by (simp add: example_ledger_def example_time_Parse_def machine_with_def)
  have again: "example_time_Format 1704844800000000000 \<noteq> []
     \<and> example_time_Parse (example_time_Format 1704844800000000000) = Some 1704844800000000000
     \<and> 1704848400000000000 - 1704844800000000000 < (604800000000000 :: int)"
    by (simp add: example_time_Format_def example_time_Parse_def)
  have d': "parseDurationString (PruningIinterval example_pruned) = Ok 604800000000000"
    by (simp add: example_pruned_def parse_7d)
  have early: "LastPrune example_pruned \<noteq> []
     \<and> example_time_Parse (LastPrune example_pruned) = Some 1704844800000000000
     \<and> 1704848400000000000 - 1704844800000000000 < (604800000000000 :: int)"
    by (simp add: example_pruned_def example_time_Parse_def)
  note first = PruneOldImages_spec [OF read_example d, where time_Parse = example_time_Parse
      and time_Format = example_time_Format and lastPruneTime = 0
      and since_now = 1704844800000000000 and threshold_now = 1704844800000000000
      and stamp_now = 1704844800000000000 and stamped = 1704844800000000000
      and again_now = 1704848400000000000 and threshold_again = 1704848400000000000
      and stamp_again = 1704848400000000000]
  note second = PruneOldImages_spec [OF read_example_pruned d' d(2),
      where time_Parse = example_time_Parse
      and time_Format = example_time_Format and lastPruneTime = 1704844800000000000
      and since_now = 1704848400000000000 and threshold_now = 1704848400000000000
      and stamp_now = 1704848400000000000]
  from first due again have
    "PruneOldImages example_time_Parse example_time_Format
       1704848400000000000 1704848400000000000 1704848400000000000
       (snd (PruneOldImages example_time_Parse example_time_Format
          1704844800000000000 1704844800000000000 1704844800000000000
          (machine_with example_ledger)))
     = (Ok (), snd (PruneOldImages example_time_Parse example_time_Format
          1704844800000000000 1704844800000000000 1704844800000000000
          (machine_with example_ledger)))"
    by blast
  moreover from second early have
    "PruneOldImages example_time_Parse example_time_Format
       1704848400000000000 1704848400000000000 1704848400000000000 (machine_with example_pruned)
     = (Ok (), machine_with example_pruned)"
    by blast
  ultimately show ?thesis
    by (simp add: PruneOldImages_example) (simp add: example_pruned_def)
qed

section \<open>Properties of \<open>Fetch\<close>\<close>

lemma pull_with_retry_no_ledger:
  "e \<in> set (snd (pull_with_retry w name options)) \<Longrightarrow> \<not> ledger_event e"
  by (auto simp: pull_with_retry_def split: option.splits if_splits)

lemma Fetch_record_no_ledger:
  "\<not> intervalPolicy options \<Longrightarrow> snd (Fetch_record w checker name options) = []"
  by (simp add: Fetch_record_def split: sum.splits)

lemma Fetch_pull_no_ledger:
  assumes "\<not> intervalPolicy options" "e \<in> set (snd (Fetch_pull w checker name options))"
  shows "\<not> ledger_event e"
proof -
  obtain err log where p: "pull_with_retry w name options = (err, log)"
    by (cases "pull_with_retry w name options")
  obtain r log' where r: "Fetch_record w checker name options = (r, log')"
    by (cases "Fetch_record w checker name options")
  from assms(1) r have "log' = []"
    using Fetch_record_no_ledger [of options w checker name] by simp
  with assms(2) p r have "e \<in> set log"
    by (auto simp: Fetch_pull_def split: option.splits if_splits)
  with p show ?thesis
    using pull_with_retry_no_ledger [of e w name options] by simp
qed

text \<open>
  \<open>Fetch\<close> of \<open>fetcher.go\<close> under \<open>PullAlways\<close>, \<open>PullNever\<close> or \<open>PullIfNotPresent\<close> makes
  no call on the ledger at all; a call on the ledger is made in daemon mode under an
  interval policy only.
\<close>

lemma Fetch_no_ledger_without_interval_policy:
  assumes "\<not> intervalPolicy options" "e \<in> set (snd (Fetch w checker name options))"
  shows "\<not> ledger_event e"
proof -
  have "snd (Fetch w checker name options) = []
        \<or> (\<exists>n. snd (Fetch w checker name options) = snd (Fetch_pull w checker n options))"
    using assms(1)
    by (auto simp: Fetch_def intervalPolicy_def split: sum.splits PullPolicy.splits)
  with assms show ?thesis
    using Fetch_pull_no_ledger by fastforce
qed

lemma Fetch_ledger_only_in_daemon_mode:
  assumes "e \<in> set (snd (Fetch w checker name options))" "ledger_event e"
  shows "intervalPolicy options \<and> Daemon options
         \<and> LayoutOption options = \<lparr>Path = [], Sparse = False\<rparr>"
proof -
  from assms have "intervalPolicy options"
    using Fetch_no_ledger_without_interval_policy by blast
  moreover from assms(1) have "Daemon options"
    "LayoutOption options = \<lparr>Path = [], Sparse = False\<rparr>"
    by (auto simp: Fetch_def split: sum.splits if_splits)
  ultimately show ?thesis by simp
qed

text \<open>
  C3. The claim is that no \<open>Fetch\<close> under \<open>PullAlways\<close>, \<open>PullNever\<close> or
  \<open>PullIfNotPresent\<close> writes the ledger. The \<open>Fetch\<close> of \<open>fetcher.go\<close> keeps to it (the two
  lemmas above). The \<open>Fetch\<close> of the unnamed file does not: under \<open>PullAlways\<close>, after a
  pull that succeeds, it writes the pull into the ledger file.
\<close>

theorem Fetch_unnamed_records_pull_under_PullAlways:
  "Fetch_unnamed example_world example_time_Parse example_time_Format example_clock
     ''busybox'' (example_options PullAlways) (machine_with example_ledger)
   = (Ok example_image,
      machine_with (example_ledger\<lparr>ImageIDtoTIME :=
         [(''busybox'', ''2024-01-10T00:00:00Z''), (''alpine'', ''2024-01-10T00:00:00Z'')]\<rparr>))"
proof -
  have rec: "updateImagePullRecord ''busybox'' ''2024-01-10T00:00:00Z'' (machine_with example_ledger)
      = (None, machine_with (example_ledger\<lparr>ImageIDtoTIME :=
         [(''busybox'', ''2024-01-10T00:00:00Z''), (''alpine'', ''2024-01-10T00:00:00Z'')]\<rparr>))"
    unfolding updateImagePullRecord_def read_example
    by (simp add: os_WriteFile_def machine_with_def example_ledger_def)
  have pull: "fst (pull_with_retry example_world ''busybox'' (example_options PullAlways)) = None"
    by (simp add: pull_with_retry_def pullImage_def example_world_def)
  have look: "fetchDaemonImage (local_NewImage_after_pull example_world) ''busybox''
      = Inr example_image"
    by (simp add: fetchDaemonImage_def example_world_def example_image_def)
  have fmt: "example_time_Format (clock_record example_clock) = ''2024-01-10T00:00:00Z''"
    by (simp add: example_time_Format_def example_clock_def)
  have tr: "TranslateRegistry example_world ''busybox'' = Inr ''busybox''"
    by (simp add: example_world_def)
  have id: "split_imageID ''busybox'' = ''busybox''"
    by (simp add: split_imageID_def)
  have "Fetch_pull_unnamed example_world example_time_Format example_clock ''busybox'' ''busybox''
          (example_options PullAlways) (machine_with example_ledger)
        = (Ok example_image, machine_with (example_ledger\<lparr>ImageIDtoTIME :=
         [(''busybox'', ''2024-01-10T00:00:00Z''), (''alpine'', ''2024-01-10T00:00:00Z'')]\<rparr>))"
    by (simp add: Fetch_pull_unnamed_def Fetch_record_unnamed_def pull look fmt rec)
  then show ?thesis
    by (simp add: Fetch_unnamed_def tr id example_options_def)
qed

text \<open>
  C10. The claim is that the eviction dereferences only a record that was read, and
  that \<open>Fetch\<close> returns the \<open>ErrNotFound\<close> of the daemon when \<open>ReadImageJSON\<close> fails. Under
  \<open>PullDaily\<close>, with a ledger that cannot be read (the check fails, so no pull is due,
  and \<open>ReadImageJSON\<close> returns nil with its error) and the image not on the daemon,
  \<open>Fetch\<close> panics on the nil record.
\<close>

theorem Fetch_nil_record_panics:
  "fst (Fetch example_world
          (example_checker\<lparr>checker_CheckImagePullInterval :=
              (\<lambda>imageID. (False, Some (New ''failed to read image.json''))),
            checker_ReadImageJSON := (None, Some (New ''failed to read image.json''))\<rparr>)
          ''busybox'' (example_options PullDaily))
   = Panic ''invalid memory address or nil pointer dereference''"
  by (simp add: Fetch_def Fetch_interval_def example_world_def example_checker_def
      example_options_def fetchDaemonImage_def)

text \<open>
  With a record to evict from, the same call returns the \<open>ErrNotFound\<close> of the daemon
  and hands the record without the entry of the image to \<open>WriteFile\<close>.
\<close>

lemma Fetch_eviction:
  "Fetch example_world
     (example_checker\<lparr>checker_CheckImagePullInterval := (\<lambda>imageID. (False, None))\<rparr>)
     ''busybox'' (example_options PullDaily)
   = (Err (Wrap ErrNotFound ''image busybox does not exist on the daemon''),
      [Call_CheckImagePullInterval ''busybox'', Call_ReadImageJSON,
       Call_WriteFile (example_ledger\<lparr>ImageIDtoTIME :=
                         [(''alpine'', ''2024-01-10T00:00:00Z'')]\<rparr>)])"
  by (simp add: Fetch_def Fetch_interval_def example_world_def example_checker_def
      example_options_def fetchDaemonImage_def example_ledger_def AList.delete_eq)

text \<open>
  C2, as stated, has no failure of the ledger become the error of \<open>Fetch\<close> once the image
  is there. With the image pulled and found on the daemon, \<open>Fetch\<close> returns the image
  when \<open>UpdateImagePullRecord\<close> succeeds, and returns the error of
  \<open>UpdateImagePullRecord\<close>, and no image, when it fails.
\<close>

theorem Fetch_update_failure_is_returned:
  "fetchDaemonImage (local_NewImage_after_pull example_world) ''busybox'' = Inr example_image
   \<and> fst (Fetch example_world example_checker ''busybox'' (example_options PullDaily))
     = Ok example_image
   \<and> fst (Fetch example_world
          (example_checker\<lparr>checker_UpdateImagePullRecord :=
              (\<lambda>imageID timestamp. Some (New ''failed to write image.json''))\<rparr>)
          ''busybox'' (example_options PullDaily))
     = Err (New ''failed to write image.json'')"
  by (simp add: Fetch_def Fetch_interval_def Fetch_pull_def Fetch_record_def pull_with_retry_def
      pullImage_def intervalPolicy_def example_world_def example_checker_def
      example_options_def fetchDaemonImage_def example_image_def)

lemma Fetch_record_ignores_check:
  "Fetch_record w (checker\<lparr>checker_CheckImagePullInterval := c\<rparr>) name options
   = Fetch_record w checker name options"
  by (simp add: Fetch_record_def split: sum.splits)

lemma Fetch_record_ignores_prune:
  "Fetch_record w (checker\<lparr>checker_PruneOldImages := p\<rparr>) name options
   = Fetch_record w checker name options"
  by (simp add: Fetch_record_def split: sum.splits)

lemma Fetch_pull_ignores_check:
  "Fetch_pull w (checker\<lparr>checker_CheckImagePullInterval := c\<rparr>) name options
   = Fetch_pull w checker name options"
  unfolding Fetch_pull_def Fetch_record_ignores_check ..

lemma Fetch_pull_ignores_prune:
  "Fetch_pull w (checker\<lparr>checker_PruneOldImages := p\<rparr>) name options
   = Fetch_pull w checker name options"
  unfolding Fetch_pull_def Fetch_record_ignores_prune ..

lemma Fetch_interval_check_error:
  "fst (Fetch_interval w (checker\<lparr>checker_CheckImagePullInterval := (\<lambda>imageID. (pull, err))\<rparr>)
          name options)
   = fst (Fetch_interval w (checker\<lparr>checker_CheckImagePullInterval := (\<lambda>imageID. (pull, None))\<rparr>)
          name options)"
proof (cases pull)
  case True
  obtain r log3 where r: "Fetch_pull w checker name options = (r, log3)"
    by (cases "Fetch_pull w checker name options")
  with True show ?thesis
    by (simp add: Fetch_interval_def Fetch_pull_ignores_check Let_def)
next
  case False
  then show ?thesis
    by (simp add: Fetch_interval_def Let_def split: sum.splits option.splits)
qed

lemma Fetch_interval_prune_error:
  "fst (Fetch_interval w (checker\<lparr>checker_PruneOldImages := err\<rparr>) name options)
   = fst (Fetch_interval w (checker\<lparr>checker_PruneOldImages := None\<rparr>) name options)"
proof -
  obtain pull e where c: "checker_CheckImagePullInterval checker name = (pull, e)"
    by (cases "checker_CheckImagePullInterval checker name")
  obtain r log3 where r: "Fetch_pull w checker name options = (r, log3)"
    by (cases "Fetch_pull w checker name options")
  show ?thesis
  proof (cases pull)
    case True
    with c r show ?thesis
      by (simp add: Fetch_interval_def Fetch_pull_ignores_prune Let_def)
  next
    case False
    with c show ?thesis
      by (simp add: Fetch_interval_def Let_def split: sum.splits option.splits)
  qed
qed

lemma Fetch_check_error:
  "fst (Fetch w (checker\<lparr>checker_CheckImagePullInterval := (\<lambda>imageID. (pull, err))\<rparr>)
          name options)
   = fst (Fetch w (checker\<lparr>checker_CheckImagePullInterval := (\<lambda>imageID. (pull, None))\<rparr>)
          name options)"
proof (cases "TranslateRegistry w name")
  case (Inl e)
  then show ?thesis by (simp add: Fetch_def)
next
  case (Inr name')
  then show ?thesis
    using Fetch_interval_check_error [where w = w and checker = checker and pull = pull
        and err = err and name = name' and options = options]
    by (cases "PullPolicy options")
       (simp_all add: Fetch_def Fetch_pull_ignores_check split: sum.splits)
qed

lemma Fetch_prune_error:
  "fst (Fetch w (checker\<lparr>checker_PruneOldImages := err\<rparr>) name options)
   = fst (Fetch w (checker\<lparr>checker_PruneOldImages := None\<rparr>) name options)"
proof (cases "TranslateRegistry w name")
  case (Inl e)
  then show ?thesis by (simp add: Fetch_def)
next
  case (Inr name')
  then show ?thesis
    using Fetch_interval_prune_error [where w = w and checker = checker and err = err
        and name = name' and options = options]
    by (cases "PullPolicy options")
       (simp_all add: Fetch_def Fetch_pull_ignores_prune split: sum.splits)
qed

lemma pull_with_retry_events:
  assumes "ev \<in> set (snd (pull_with_retry w name options))"
  shows "(\<exists>m. ev = Debugf m) \<or> (\<exists>a b. ev = Call_pullImage a b)"
  using assms
  by (auto simp: pull_with_retry_def split: option.splits if_splits)

lemma Fetch_record_events:
  assumes "ev \<in> set (snd (Fetch_record w checker name options))"
  shows "ev = Call_UpdateImagePullRecord name (now_RFC3339 w)"
  using assms
  by (auto simp: Fetch_record_def split: sum.splits option.splits if_splits)

lemma Fetch_pull_log:
  "snd (Fetch_pull w checker name options) = snd (pull_with_retry w name options)
   \<or> (snd (Fetch_pull w checker name options)
        = snd (pull_with_retry w name options) @ snd (Fetch_record w checker name options)
      \<and> fst (Fetch_pull w checker name options) = fst (Fetch_record w checker name options))"
proof -
  obtain err log where p: "pull_with_retry w name options = (err, log)"
    by (cases "pull_with_retry w name options")
  obtain r log' where r: "Fetch_record w checker name options = (r, log')"
    by (cases "Fetch_record w checker name options")
  from p r show ?thesis
    by (cases err) (simp_all add: Fetch_pull_def)
qed

lemma Fetch_pull_events:
  assumes "ev \<in> set (snd (Fetch_pull w checker name options))"
  shows "(\<exists>m. ev = Debugf m) \<or> (\<exists>a b. ev = Call_pullImage a b)
         \<or> ev = Call_UpdateImagePullRecord name (now_RFC3339 w)"
proof -
  from assms Fetch_pull_log [of w checker name options]
  have "ev \<in> set (snd (pull_with_retry w name options))
        \<or> ev \<in> set (snd (Fetch_record w checker name options))"
    by auto
  then show ?thesis
    using pull_with_retry_events [of ev w name options]
      Fetch_record_events [of ev w checker name options]
    by blast
qed

lemma Fetch_record_update_error:
  assumes "Call_UpdateImagePullRecord n t \<in> set (snd (Fetch_record w checker name options))"
    and "checker_UpdateImagePullRecord checker n t = Some e"
  shows "fst (Fetch_record w checker name options) = Err e"
  using assms
  by (auto simp: Fetch_record_def split: sum.splits if_splits option.splits)

lemma Fetch_pull_update_error:
  assumes "Call_UpdateImagePullRecord n t \<in> set (snd (Fetch_pull w checker name options))"
    and "checker_UpdateImagePullRecord checker n t = Some e"
  shows "fst (Fetch_pull w checker name options) = Err e"
proof -
  have "Call_UpdateImagePullRecord n t \<notin> set (snd (pull_with_retry w name options))"
    using pull_with_retry_events [of "Call_UpdateImagePullRecord n t" w name options] by auto
  with assms(1) Fetch_pull_log [of w checker name options]
  have "Call_UpdateImagePullRecord n t \<in> set (snd (Fetch_record w checker name options))
        \<and> fst (Fetch_pull w checker name options) = fst (Fetch_record w checker name options)"
    by auto
  with assms(2) show ?thesis
    using Fetch_record_update_error [of n t w checker name options e] by simp
qed

lemma Fetch_interval_due:
  assumes "checker_CheckImagePullInterval checker name = (True, err)"
  shows "Fetch_interval w checker name options
    = (fst (Fetch_pull w checker name options),
       (Call_CheckImagePullInterval name #
          (case err of
             Some e \<Rightarrow> [Warnf (''failed to check pulling interval for image '' @ name
                               @ '', '' @ Error_text e)]
           | None \<Rightarrow> []))
       @ Call_PruneOldImages #
          (case checker_PruneOldImages checker of
             Some e \<Rightarrow> [Warnf (''Failed to prune images, '' @ Error_text e)]
           | None \<Rightarrow> [])
       @ snd (Fetch_pull w checker name options))"
proof -
  obtain r log3 where r: "Fetch_pull w checker name options = (r, log3)"
    by (cases "Fetch_pull w checker name options")
  with assms show ?thesis
    by (simp add: Fetch_interval_def Let_def)
qed

lemma Fetch_interval_not_due:
  assumes "checker_CheckImagePullInterval checker name = (False, err)"
    and "ev \<in> set (snd (Fetch_interval w checker name options))"
  shows "ev \<in> set (Call_CheckImagePullInterval name #
          (case err of
             Some e \<Rightarrow> [Warnf (''failed to check pulling interval for image '' @ name
                               @ '', '' @ Error_text e)]
           | None \<Rightarrow> []))
         \<or> ev = Call_ReadImageJSON \<or> (\<exists>j. ev = Call_WriteFile j) \<or> (\<exists>m. ev = Errorf m)"
proof (cases "fetchDaemonImage (local_NewImage_before_pull w) name")
  case (Inr img)
  with assms show ?thesis
    by (simp add: Fetch_interval_def Let_def)
next
  case (Inl e)
  show ?thesis
  proof (cases "Is_ErrNotFound e")
    case False
    with Inl assms show ?thesis
      by (simp add: Fetch_interval_def Let_def)
  next
    case True
    show ?thesis
    proof (cases "fst (checker_ReadImageJSON checker)")
      case None
      with True Inl assms show ?thesis
        by (auto simp: Fetch_interval_def Let_def)
    next
      case (Some imageJSON)
      with True Inl assms show ?thesis
        by (cases "WriteFile w (imageJSON\<lparr>ImageIDtoTIME :=
              AList.delete name (ImageIDtoTIME imageJSON)\<rparr>)")
           (auto simp: Fetch_interval_def Let_def)
    qed
  qed
qed

lemma Fetch_interval_not_due_check_logged:
  assumes "checker_CheckImagePullInterval checker name = (False, err)"
  shows "set (Call_CheckImagePullInterval name #
          (case err of
             Some e \<Rightarrow> [Warnf (''failed to check pulling interval for image '' @ name
                               @ '', '' @ Error_text e)]
           | None \<Rightarrow> []))
         \<subseteq> set (snd (Fetch_interval w checker name options))"
proof (cases "fetchDaemonImage (local_NewImage_before_pull w) name")
  case (Inr img)
  with assms show ?thesis
    by (simp add: Fetch_interval_def Let_def)
next
  case (Inl e)
  show ?thesis
  proof (cases "Is_ErrNotFound e")
    case False
    with Inl assms show ?thesis
      by (simp add: Fetch_interval_def Let_def)
  next
    case True
    show ?thesis
    proof (cases "fst (checker_ReadImageJSON checker)")
      case None
      with True Inl assms show ?thesis
        by (auto simp: Fetch_interval_def Let_def)
    next
      case (Some imageJSON)
      with True Inl assms show ?thesis
        by (auto simp: Fetch_interval_def Let_def)
    qed
  qed
qed

lemma Fetch_interval_update_error:
  assumes "Call_UpdateImagePullRecord n t \<in> set (snd (Fetch_interval w checker name options))"
    and "checker_UpdateImagePullRecord checker n t = Some e"
  shows "fst (Fetch_interval w checker name options) = Err e"
proof -
  obtain pull err where c: "checker_CheckImagePullInterval checker name = (pull, err)"
    by (cases "checker_CheckImagePullInterval checker name")
  show ?thesis
  proof (cases pull)
    case False
    with c assms(1) show ?thesis
      using Fetch_interval_not_due [of checker name err "Call_UpdateImagePullRecord n t" w options]
      by (auto split: option.splits)
  next
    case True
    with c have eq: "Fetch_interval w checker name options
      = (fst (Fetch_pull w checker name options),
       (Call_CheckImagePullInterval name #
          (case err of
             Some e \<Rightarrow> [Warnf (''failed to check pulling interval for image '' @ name
                               @ '', '' @ Error_text e)]
           | None \<Rightarrow> []))
       @ Call_PruneOldImages #
          (case checker_PruneOldImages checker of
             Some e \<Rightarrow> [Warnf (''Failed to prune images, '' @ Error_text e)]
           | None \<Rightarrow> [])
       @ snd (Fetch_pull w checker name options))"
      using Fetch_interval_due [of checker name err w options] by simp
    with assms(1) have "Call_UpdateImagePullRecord n t \<in> set (snd (Fetch_pull w checker name options))"
      by (auto split: option.splits)
    with assms(2) eq show ?thesis
      using Fetch_pull_update_error [of n t w checker name options e] by simp
  qed
qed

lemma Fetch_interval_check_warning:
  assumes "Call_CheckImagePullInterval n \<in> set (snd (Fetch_interval w checker name options))"
    and "snd (checker_CheckImagePullInterval checker n) = Some e"
  shows "Warnf (''failed to check pulling interval for image '' @ n @ '', '' @ Error_text e)
         \<in> set (snd (Fetch_interval w checker name options))"
proof -
  obtain pull err where c: "checker_CheckImagePullInterval checker name = (pull, err)"
    by (cases "checker_CheckImagePullInterval checker name")
  have no: "Call_CheckImagePullInterval n \<notin> set (snd (Fetch_pull w checker name options))"
    using Fetch_pull_events [of "Call_CheckImagePullInterval n" w checker name options] by auto
  show ?thesis
  proof (cases pull)
    case True
    with c have eq: "Fetch_interval w checker name options
      = (fst (Fetch_pull w checker name options),
       (Call_CheckImagePullInterval name #
          (case err of
             Some e \<Rightarrow> [Warnf (''failed to check pulling interval for image '' @ name
                               @ '', '' @ Error_text e)]
           | None \<Rightarrow> []))
       @ Call_PruneOldImages #
          (case checker_PruneOldImages checker of
             Some e \<Rightarrow> [Warnf (''Failed to prune images, '' @ Error_text e)]
           | None \<Rightarrow> [])
       @ snd (Fetch_pull w checker name options))"
      using Fetch_interval_due [of checker name err w options] by simp
    with assms(1) no have "n = name"
      by (auto split: option.splits)
    with assms(2) c have "err = Some e" by simp
    with eq \<open>n = name\<close> show ?thesis by simp
  next
    case False
    with c assms(1) have "n = name"
      using Fetch_interval_not_due [of checker name err "Call_CheckImagePullInterval n" w options]
      by (auto split: option.splits)
    with assms(2) c have "err = Some e" by simp
    with c False \<open>n = name\<close> show ?thesis
      using Fetch_interval_not_due_check_logged [of checker name err w options] by auto
  qed
qed

lemma Fetch_interval_prune_warning:
  assumes "Call_PruneOldImages \<in> set (snd (Fetch_interval w checker name options))"
    and "checker_PruneOldImages checker = Some e"
  shows "Warnf (''Failed to prune images, '' @ Error_text e)
         \<in> set (snd (Fetch_interval w checker name options))"
proof -
  obtain pull err where c: "checker_CheckImagePullInterval checker name = (pull, err)"
    by (cases "checker_CheckImagePullInterval checker name")
  show ?thesis
  proof (cases pull)
    case True
    with c assms(2) show ?thesis
      using Fetch_interval_due [of checker name err w options] by simp
  next
    case False
    with c assms(1) show ?thesis
      using Fetch_interval_not_due [of checker name err Call_PruneOldImages w options]
      by (auto split: option.splits)
  qed
qed

lemma Fetch_shape:
  "snd (Fetch w checker name options) = []
   \<or> (\<exists>name'. Fetch w checker name options = Fetch_pull w checker name' options
             \<or> Fetch w checker name options = Fetch_interval w checker name' options)"
proof (cases "TranslateRegistry w name")
  case (Inl e)
  then show ?thesis by (simp add: Fetch_def)
next
  case (Inr name')
  show ?thesis
  proof (cases "LayoutOption options \<noteq> \<lparr>Path = [], Sparse = False\<rparr> \<or> \<not> Daemon options")
    case True
    with Inr show ?thesis by (auto simp: Fetch_def)
  next
    case False
    with Inr show ?thesis
      by (cases "PullPolicy options")
         (auto simp: Fetch_def split: sum.splits)
  qed
qed

lemma Fetch_update_error:
  assumes "Call_UpdateImagePullRecord n t \<in> set (snd (Fetch w checker name options))"
    and "checker_UpdateImagePullRecord checker n t = Some e"
  shows "fst (Fetch w checker name options) = Err e"
proof -
  from assms(1) Fetch_shape [of w checker name options] obtain name' where
    "Fetch w checker name options = Fetch_pull w checker name' options
     \<or> Fetch w checker name options = Fetch_interval w checker name' options"
    by auto
  then show ?thesis
  proof
    assume "Fetch w checker name options = Fetch_pull w checker name' options"
    with assms show ?thesis
      using Fetch_pull_update_error [of n t w checker name' options e] by simp
  next
    assume "Fetch w checker name options = Fetch_interval w checker name' options"
    with assms show ?thesis
      using Fetch_interval_update_error [of n t w checker name' options e] by simp
  qed
qed

lemma Fetch_check_warning:
  assumes "Call_CheckImagePullInterval n \<in> set (snd (Fetch w checker name options))"
    and "snd (checker_CheckImagePullInterval checker n) = Some e"
  shows "Warnf (''failed to check pulling interval for image '' @ n @ '', '' @ Error_text e)
         \<in> set (snd (Fetch w checker name options))"
proof -
  from assms(1) Fetch_shape [of w checker name options] obtain name' where
    "Fetch w checker name options = Fetch_pull w checker name' options
     \<or> Fetch w checker name options = Fetch_interval w checker name' options"
    by auto
  then show ?thesis
  proof
    assume "Fetch w checker name options = Fetch_pull w checker name' options"
    with assms(1) show ?thesis
      using Fetch_pull_events [of "Call_CheckImagePullInterval n" w checker name' options]
      by auto
  next
    assume "Fetch w checker name options = Fetch_interval w checker name' options"
    with assms show ?thesis
      using Fetch_interval_check_warning [of n w checker name' options e] by simp
  qed
qed

lemma Fetch_prune_warning:
  assumes "Call_PruneOldImages \<in> set (snd (Fetch w checker name options))"
    and "checker_PruneOldImages checker = Some e"
  shows "Warnf (''Failed to prune images, '' @ Error_text e)
         \<in> set (snd (Fetch w checker name options))"
proof -
  from assms(1) Fetch_shape [of w checker name options] obtain name' where
    "Fetch w checker name options = Fetch_pull w checker name' options
     \<or> Fetch w checker name options = Fetch_interval w checker name' options"
    by auto
  then show ?thesis
  proof
    assume "Fetch w checker name options = Fetch_pull w checker name' options"
    with assms(1) show ?thesis
      using Fetch_pull_events [of Call_PruneOldImages w checker name' options]
      by auto
  next
    assume "Fetch w checker name options = Fetch_interval w checker name' options"
    with assms show ?thesis
      using Fetch_interval_prune_warning [of w checker name' options e] by simp
  qed
qed

text \<open>
  C2, as the code of \<open>fetcher.go\<close> has it. The error of the interval check and the error
  of the prune change nothing in what \<open>Fetch\<close> returns, and each is logged as a warning
  when the call is made and fails; an error of \<open>UpdateImagePullRecord\<close>, when that call
  is made, is what \<open>Fetch\<close> returns.
\<close>

theorem Fetch_ledger_failures:
  "fst (Fetch w (checker\<lparr>checker_CheckImagePullInterval := (\<lambda>imageID. (pull, Some e))\<rparr>)
          name options)
   = fst (Fetch w (checker\<lparr>checker_CheckImagePullInterval := (\<lambda>imageID. (pull, None))\<rparr>)
          name options)
   \<and> fst (Fetch w (checker\<lparr>checker_PruneOldImages := Some e\<rparr>) name options)
     = fst (Fetch w (checker\<lparr>checker_PruneOldImages := None\<rparr>) name options)
   \<and> (Call_CheckImagePullInterval n \<in> set (snd (Fetch w checker name options))
       \<and> snd (checker_CheckImagePullInterval checker n) = Some e \<longrightarrow>
         Warnf (''failed to check pulling interval for image '' @ n @ '', '' @ Error_text e)
         \<in> set (snd (Fetch w checker name options)))
   \<and> (Call_PruneOldImages \<in> set (snd (Fetch w checker name options))
       \<and> checker_PruneOldImages checker = Some e \<longrightarrow>
         Warnf (''Failed to prune images, '' @ Error_text e)
         \<in> set (snd (Fetch w checker name options)))
   \<and> (Call_UpdateImagePullRecord n t \<in> set (snd (Fetch w checker name options))
       \<and> checker_UpdateImagePullRecord checker n t = Some e \<longrightarrow>
         fst (Fetch w checker name options) = Err e)"
  using Fetch_check_error [where w = w and checker = checker and pull = pull
      and err = "Some e" and name = name and options = options]
    Fetch_prune_error [where w = w and checker = checker and err = "Some e"
      and name = name and options = options]
    Fetch_check_warning [of n w checker name options e]
    Fetch_prune_warning [of w checker name options e]
    Fetch_update_error [of n t w checker name options e]
  by blast

lemma Fetch_failing_checker:
  "Fetch example_world failing_checker ''busybox'' (example_options PullDaily)
   = (Err (New ''permission denied''),
      [Call_CheckImagePullInterval ''busybox'',
       Warnf ''failed to check pulling interval for image busybox, permission denied'',
       Call_PruneOldImages,
       Warnf ''Failed to prune images, permission denied'',
       Debugf ''Pulling image busybox'',
       Call_pullImage ''busybox'' ''linux/amd64'',
       Call_UpdateImagePullRecord ''busybox'' ''2024-01-10T00:00:00Z''])"
  by (simp add: Fetch_def Fetch_interval_def Fetch_pull_def Fetch_record_def pull_with_retry_def
      pullImage_def intervalPolicy_def example_world_def failing_checker_def
      example_options_def fetchDaemonImage_def example_image_def)

text \<open>
  With a checker all of whose calls fail, under \<open>PullDaily\<close>: both warnings are logged
  and the error returned is the one of \<open>UpdateImagePullRecord\<close>.
\<close>

theorem Fetch_ledger_failures_witness:
  "Warnf ''failed to check pulling interval for image busybox, permission denied''
     \<in> set (snd (Fetch example_world failing_checker ''busybox'' (example_options PullDaily)))
   \<and> Warnf ''Failed to prune images, permission denied''
     \<in> set (snd (Fetch example_world failing_checker ''busybox'' (example_options PullDaily)))
   \<and> fst (Fetch example_world failing_checker ''busybox'' (example_options PullDaily))
     = Err (New ''permission denied'')"
proof -
  have check: "Call_CheckImagePullInterval ''busybox''
      \<in> set (snd (Fetch example_world failing_checker ''busybox'' (example_options PullDaily)))
    \<and> snd (checker_CheckImagePullInterval failing_checker ''busybox'')
      = Some (New ''permission denied'')"
    by (simp add: Fetch_failing_checker) (simp add: failing_checker_def)
  have prune: "Call_PruneOldImages
      \<in> set (snd (Fetch example_world failing_checker ''busybox'' (example_options PullDaily)))
    \<and> checker_PruneOldImages failing_checker = Some (New ''permission denied'')"
    by (simp add: Fetch_failing_checker) (simp add: failing_checker_def)
  have update: "Call_UpdateImagePullRecord ''busybox'' ''2024-01-10T00:00:00Z''
      \<in> set (snd (Fetch example_world failing_checker ''busybox'' (example_options PullDaily)))
    \<and> checker_UpdateImagePullRecord failing_checker ''busybox'' ''2024-01-10T00:00:00Z''
      = Some (New ''permission denied'')"
    by (simp add: Fetch_failing_checker) (simp add: failing_checker_def)
  from check prune update
    Fetch_ledger_failures [where w = example_world and checker = failing_checker
      and name = "''busybox''" and options = "example_options PullDaily"
      and n = "''busybox''" and t = "''2024-01-10T00:00:00Z''"
      and e = "New ''permission denied''" and pull = True]
  show ?thesis
    by simp
qed

end
